theory Spec2Isabelle
  imports Complex_Main "HOL-Library.Multiset"
begin

section \<open>Python values used by job\_throughput.py\<close>

text \<open>
  Exceptions of the Python run time that the modelled functions can raise. A function
  that can raise returns \<open>py_error + 'a\<close>, with \<open>Inl\<close> for the exception.
\<close>

datatype py_error = ZeroDivisionError | ValueError | IndexError

text \<open>
  Numbers read from the JSON configuration that take part in a true division
  (\<open>/\<close>) are rationals: the model computes the quotient exactly, where Python
  computes the nearest binary float. The two agree wherever the operands and the
  quotient are exact in binary; a share that the float rounds across a half (count 2,
  ratios 0.1 and 0.3) is rounded the other way by the code, and a float that overflows
  raises OverflowError there. A character is a code point below 256.
\<close>

definition py_round :: "rat \<Rightarrow> int" where
  \<comment> \<open>\<open>round(x)\<close> with one argument: to the nearest integer, a tie to the even one.\<close>
  "py_round x =
     (let f = \<lfloor>x\<rfloor>; r = x - of_int f
      in if r < 1 / 2 then f
         else if 1 / 2 < r then f + 1
         else if even f then f else f + 1)"

definition py_isspace :: "char \<Rightarrow> bool" where
  \<comment> \<open>the characters below 256 that \<open>str.strip()\<close> and \<open>str.split()\<close> treat as
      whitespace\<close>
  "py_isspace c =
     (c = CHR '' '' \<or> c = CHR 0x09 \<or> c = CHR 0x0A \<or> c = CHR 0x0B \<or> c = CHR 0x0C \<or>
      c = CHR 0x0D \<or> c = CHR 0x1C \<or> c = CHR 0x1D \<or> c = CHR 0x1E \<or> c = CHR 0x1F \<or>
      c = CHR 0x85 \<or> c = CHR 0xA0)"

definition py_strip :: "string \<Rightarrow> string" where
  "py_strip s = rev (dropWhile py_isspace (rev (dropWhile py_isspace s)))"

fun split_from :: "string \<Rightarrow> string \<Rightarrow> string list" where
  \<comment> \<open>the first argument is the word read so far\<close>
  "split_from w [] = (if w = [] then [] else [w])"
| "split_from w (c # cs) =
     (if py_isspace c then (if w = [] then split_from [] cs else w # split_from [] cs)
      else split_from (w @ [c]) cs)"

definition py_split :: "string \<Rightarrow> string list" where
  \<comment> \<open>\<open>s.split()\<close>: the maximal runs of non-whitespace\<close>
  "py_split s = split_from [] s"

definition py_linebreak :: "char \<Rightarrow> bool" where
  \<comment> \<open>the line boundaries of \<open>str.splitlines()\<close> below 256\<close>
  "py_linebreak c =
     (c = CHR 0x0A \<or> c = CHR 0x0B \<or> c = CHR 0x0C \<or> c = CHR 0x0D \<or>
      c = CHR 0x1C \<or> c = CHR 0x1D \<or> c = CHR 0x1E \<or> c = CHR 0x85)"

fun splitlines_from :: "string \<Rightarrow> string \<Rightarrow> string list" where
  "splitlines_from l [] = (if l = [] then [] else [l])"
| "splitlines_from l [c] = (if py_linebreak c then [l] else [l @ [c]])"
| "splitlines_from l (c # d # cs) =
     (if c = CHR 0x0D \<and> d = CHR 0x0A then l # splitlines_from [] cs
      else if py_linebreak c then l # splitlines_from [] (d # cs)
      else splitlines_from (l @ [c]) (d # cs))"

definition py_splitlines :: "string \<Rightarrow> string list" where
  "py_splitlines s = splitlines_from [] s"

definition py_isdigit :: "char \<Rightarrow> bool" where
  "py_isdigit c = (48 \<le> (of_char c :: nat) \<and> (of_char c :: nat) \<le> 57)"

fun int_digits :: "bool \<Rightarrow> nat \<Rightarrow> string \<Rightarrow> nat option" where
  \<comment> \<open>decimal digits, single underscores between digits allowed; the flag says that
      the previous character was a digit\<close>
  "int_digits prev acc [] = (if prev then Some acc else None)"
| "int_digits prev acc (c # cs) =
     (if py_isdigit c then int_digits True (acc * 10 + (of_char c - 48)) cs
      else if c = CHR ''_'' \<and> prev then int_digits False acc cs
      else None)"

definition py_int :: "string \<Rightarrow> py_error + int" where
  \<comment> \<open>\<open>int(s)\<close> on a string without surrounding whitespace: ValueError unless it is a
      decimal literal with an optional sign\<close>
  "py_int s =
     (let body = (case s of c # cs \<Rightarrow> if c = CHR ''+'' \<or> c = CHR ''-'' then cs else s | [] \<Rightarrow> s);
          neg = (case s of c # cs \<Rightarrow> c = CHR ''-'' | [] \<Rightarrow> False)
      in case int_digits False 0 body of
           None \<Rightarrow> Inl ValueError
         | Some n \<Rightarrow> Inr (if neg then - int n else int n))"

function str_nat :: "nat \<Rightarrow> string" where
  "str_nat n =
     (if n < 10 then [char_of (48 + n)] else str_nat (n div 10) @ [char_of (48 + n mod 10)])"
  by pat_completeness auto
termination
  by (relation "measure id") auto

definition py_str :: "int \<Rightarrow> string" where
  \<comment> \<open>\<open>str(n)\<close> of an integer, as an f-string formats it\<close>
  "py_str n = (if n < 0 then CHR ''-'' # str_nat (nat (- n)) else str_nat (nat n))"

section \<open>The job mix and the task list\<close>

text \<open>
  One entry of \<open>jobs\<close> in the configuration: \<open>{"nodes": N, "count": C,
  "durations": [{"minutes": m, "ratio": r}, ...]}\<close>. Field names carry a prefix where
  two dictionaries of the source share a key.
\<close>

record duration_def =
  minutes :: int
  ratio :: rat

record job_def =
  jd_nodes :: int
  jd_count :: int
  jd_durations :: "duration_def list"

record task =
  t_nodes :: int
  t_duration :: int

fun round_counts :: "int \<Rightarrow> rat \<Rightarrow> duration_def list \<Rightarrow> py_error + int list" where
  \<comment> \<open>\<open>for d in durations: curr_counts.append(int(round(count * d["ratio"] / total_ratio)))\<close>,
      with \<open>cnt\<close> for \<open>count\<close>; the division raises when \<open>total_ratio\<close> is zero\<close>
  "round_counts cnt total_ratio [] = Inr []"
| "round_counts cnt total_ratio (d # ds) =
     (if total_ratio = 0 then Inl ZeroDivisionError
      else case round_counts cnt total_ratio ds of
             Inl e \<Rightarrow> Inl e
           | Inr cs \<Rightarrow> Inr (py_round (of_int cnt * ratio d / total_ratio) # cs))"

definition adjust_step :: "int \<Rightarrow> nat \<Rightarrow> py_error + int list \<Rightarrow> py_error + int list" where
  \<comment> \<open>one pass of \<open>for i in range(abs(diff))\<close>; \<open>i % len(curr_counts)\<close> raises on
      an empty list\<close>
  "adjust_step diff i acc =
     (case acc of
        Inl e \<Rightarrow> Inl e
      | Inr curr_counts \<Rightarrow>
          if length curr_counts = 0 then Inl ZeroDivisionError
          else let idx = i mod length curr_counts
               in if 0 < diff then Inr (curr_counts[idx := curr_counts ! idx + 1])
                  else if diff < 0 \<and> 0 < curr_counts ! idx
                       then Inr (curr_counts[idx := curr_counts ! idx - 1])
                  else Inr curr_counts)"

definition adjust_counts :: "int \<Rightarrow> int list \<Rightarrow> py_error + int list" where
  "adjust_counts diff curr_counts = fold (adjust_step diff) [0..<nat \<bar>diff\<bar>] (Inr curr_counts)"

definition entry_counts :: "job_def \<Rightarrow> py_error + int list" where
  \<comment> \<open>the final \<open>curr_counts\<close> of one entry\<close>
  "entry_counts job =
     (let total_ratio = sum_list (map ratio (jd_durations job))
      in case round_counts (jd_count job) total_ratio (jd_durations job) of
           Inl e \<Rightarrow> Inl e
         | Inr curr_counts \<Rightarrow> adjust_counts (jd_count job - sum_list curr_counts) curr_counts)"

definition entry_tasks :: "job_def \<Rightarrow> py_error + task list" where
  \<comment> \<open>what one entry appends to \<open>data\<close>; \<open>range\<close> of a negative count is empty\<close>
  "entry_tasks job =
     (case entry_counts job of
        Inl e \<Rightarrow> Inl e
      | Inr curr_counts \<Rightarrow>
          Inr (concat (map (\<lambda>(d, instance_count).
                 replicate (nat instance_count) \<lparr>t_nodes = jd_nodes job, t_duration = minutes d\<rparr>)
               (zip (jd_durations job) curr_counts))))"

fun task_data :: "job_def list \<Rightarrow> py_error + task list" where
  \<comment> \<open>\<open>data\<close> before the shuffle\<close>
  "task_data [] = Inr []"
| "task_data (job # jobs) =
     (case entry_tasks job of
        Inl e \<Rightarrow> Inl e
      | Inr ts \<Rightarrow> (case task_data jobs of Inl e \<Rightarrow> Inl e | Inr rest \<Rightarrow> Inr (ts @ rest)))"

text \<open>
  \<open>random.shuffle(x)\<close> is the loop
  \<open>for i in reversed(range(1, len(x))): j = randbelow(i + 1); x[i], x[j] = x[j], x[i]\<close>.
  The random source is a parameter: \<open>rnd i\<close> is the number drawn at position \<open>i\<close>,
  reduced into \<open>0..i\<close>.
\<close>

definition shuffle_step :: "(nat \<Rightarrow> nat) \<Rightarrow> nat \<Rightarrow> 'a list \<Rightarrow> 'a list" where
  "shuffle_step rnd i xs = (let j = rnd i mod (i + 1) in xs[i := xs ! j, j := xs ! i])"

definition shuffle :: "(nat \<Rightarrow> nat) \<Rightarrow> 'a list \<Rightarrow> 'a list" where
  "shuffle rnd xs = fold (shuffle_step rnd) (rev [1..<length xs]) xs"

definition zero_draws :: "nat \<Rightarrow> nat" where
  \<comment> \<open>the random source that draws 0 at every position\<close>
  "zero_draws i = 0"

definition generate_task_list :: "(nat \<Rightarrow> nat) \<Rightarrow> job_def list \<Rightarrow> py_error + task list" where
  "generate_task_list rnd job_defs =
     (case task_data job_defs of Inl e \<Rightarrow> Inl e | Inr data \<Rightarrow> Inr (shuffle rnd data))"

definition overshoot_mix :: "job_def list" where
  \<comment> \<open>a job mix with one entry of count 5 and four duration variants of ratios 1, 13, 13, 13\<close>
  "overshoot_mix =
     [\<lparr>jd_nodes = 1, jd_count = 5, jd_durations =
        [\<lparr>minutes = 1, ratio = 1\<rparr>, \<lparr>minutes = 2, ratio = 13\<rparr>,
         \<lparr>minutes = 3, ratio = 13\<rparr>, \<lparr>minutes = 4, ratio = 13\<rparr>]\<rparr>]"

definition template_name :: "int \<Rightarrow> string" where
  \<comment> \<open>\<open>f"job_{minutes}min.slurm"\<close>\<close>
  "template_name m = ''job_'' @ py_str m @ ''min.slurm''"

definition get_duration_template_map :: "job_def list \<Rightarrow> (int \<rightharpoonup> string)" where
  "get_duration_template_map job_defs =
     fold (\<lambda>job templates.
        fold (\<lambda>dur templates.
           if templates (minutes dur) = None
           then templates(minutes dur \<mapsto> template_name (minutes dur))
           else templates)
          (jd_durations job) templates)
       job_defs Map.empty"

section \<open>The cluster's commands\<close>

text \<open>
  What \<open>subprocess.run\<close> hands back: the return status and the captured standard
  output. The cluster is outside the program, so each function below takes the outcome
  of its command as an argument.
\<close>

record proc_result =
  returncode :: int
  stdout :: string

definition submit_cmd :: "int \<Rightarrow> string \<Rightarrow> string \<Rightarrow> string" where
  "submit_cmd node_count queue_name script_file =
     ''sbatch --parsable --nodes='' @ py_str node_count @ '' -p '' @ queue_name @ '' '' @ script_file"

definition submit_job ::
  "int \<Rightarrow> int \<Rightarrow> (int \<rightharpoonup> string) \<Rightarrow> string \<Rightarrow> proc_result \<Rightarrow>
   py_error + (string option \<times> string option)" where
  \<comment> \<open>\<open>result\<close> is the outcome of running \<open>submit_cmd\<close>; the pair is
      \<open>(jobid, script_file)\<close>, and \<open>split()[0]\<close> raises on an empty list\<close>
  "submit_job node_count duration_min slurm_templates queue_name result =
     (case slurm_templates duration_min of
        None \<Rightarrow> Inr (None, None)
      | Some script_file \<Rightarrow>
          if returncode result = 0
          then (case py_split (py_strip (stdout result)) of
                  [] \<Rightarrow> Inl IndexError
                | jobid # _ \<Rightarrow> Inr (Some jobid, Some script_file))
          else Inr (None, Some script_file))"

record active_job =
  aj_jobid :: string
  aj_nodes :: int
  aj_state :: string

fun squeue_lines :: "string list \<Rightarrow> py_error + active_job list" where
  \<comment> \<open>the loop over \<open>result.stdout.splitlines()\<close> in \<open>check_active_jobs\<close>\<close>
  "squeue_lines [] = Inr []"
| "squeue_lines (line # lines) =
     (let parts = py_split (py_strip line)
      in if 3 \<le> length parts \<and> (parts ! 2 = ''RUNNING'' \<or> parts ! 2 = ''PENDING'')
         then (case py_int (parts ! 1) of
                 Inl e \<Rightarrow> Inl e
               | Inr n \<Rightarrow>
                   (case squeue_lines lines of
                      Inl e \<Rightarrow> Inl e
                    | Inr jobs \<Rightarrow>
                        Inr (\<lparr>aj_jobid = parts ! 0, aj_nodes = n, aj_state = parts ! 2\<rparr> # jobs)))
         else squeue_lines lines)"

definition check_active_jobs :: "proc_result \<Rightarrow> py_error + active_job list" where
  "check_active_jobs result =
     (if returncode result = 0 then squeue_lines (py_splitlines (stdout result)) else Inr [])"

definition get_current_used_nodes :: "proc_result \<Rightarrow> py_error + int" where
  "get_current_used_nodes result =
     (case check_active_jobs result of
        Inl e \<Rightarrow> Inl e
      | Inr jobs \<Rightarrow>
          Inr (fold (\<lambda>job used. if aj_state job = ''RUNNING'' then used + aj_nodes job else used)
                 jobs 0))"

definition squeue_sample :: proc_result where
  \<comment> \<open>a successful \<open>squeue\<close>: two running jobs of 4 and 2 nodes, one pending job of 8\<close>
  "squeue_sample =
     \<lparr>returncode = 0,
      stdout = ''101 4 RUNNING'' @ [CHR 0x0A] @ ''102 8 PENDING'' @ [CHR 0x0A] @
               ''103 2 RUNNING'' @ [CHR 0x0A]\<rparr>"

definition sacct_line :: "string list \<Rightarrow> string \<Rightarrow> (string \<rightharpoonup> bool) \<Rightarrow> (string \<rightharpoonup> bool)" where
  \<comment> \<open>one line of the \<open>sacct\<close> output in \<open>check_jobs_finished\<close>\<close>
  "sacct_line jobids line finished_dict =
     (let parts = py_split (py_strip line)
      in if 2 \<le> length parts
         then (let jid = parts ! 0; st = parts ! 1
               in if CHR ''.'' \<notin> set jid \<and> jid \<in> set jobids
                  then finished_dict(jid \<mapsto> (st = ''COMPLETED''))
                  else finished_dict)
         else finished_dict)"

definition check_jobs_finished :: "string list \<Rightarrow> proc_result \<Rightarrow> (string \<rightharpoonup> bool)" where
  \<comment> \<open>\<open>result\<close> is the outcome of the \<open>sacct\<close> command, which runs only when
      \<open>jobids\<close> is not empty\<close>
  "check_jobs_finished jobids result =
     (if jobids = [] then Map.empty
      else let finished_dict =
                 (if returncode result = 0
                  then fold (sacct_line jobids) (py_splitlines (stdout result)) Map.empty
                  else Map.empty)
           in fold (\<lambda>jid d. if d jid = None then d(jid \<mapsto> False) else d) jobids finished_dict)"

definition sacct_sample :: proc_result where
  \<comment> \<open>a successful \<open>sacct\<close> that knows jobs 11 (with a step) and 12\<close>
  "sacct_sample =
     \<lparr>returncode = 0,
      stdout = ''11 COMPLETED'' @ [CHR 0x0A] @ ''11.batch COMPLETED'' @ [CHR 0x0A] @
               ''12 FAILED'' @ [CHR 0x0A]\<rparr>"

section \<open>The admission loop of main\<close>

record job_info =
  ji_jobid :: string
  ji_nodes :: int
  ji_duration :: int
  ji_submit_time :: int
  ji_script_file :: "string option"

text \<open>
  \<open>ji_submit_time\<close> stands for the string \<open>submit_time.strftime("%Y-%m-%d %H:%M:%S")\<close>:
  the whole second of the instant \<open>datetime.now()\<close>, counted on the scale of
  \<open>time.time()\<close>.

  The effects of the loop, in program order.
\<close>

datatype event =
    UsedNodes int  \<comment> \<open>\<open>get_current_used_nodes()\<close> returned this number\<close>
  | SubmitJob int int  \<comment> \<open>\<open>submit_job\<close> was called with this node count and duration\<close>
  | SaveJobToDb job_info
  | PrintSubmitted job_info
  | PrintSubmitFailed "string option"  \<comment> \<open>the diagnostic of the \<open>else\<close> branch\<close>
  | Sleep rat

text \<open>
  What the world answers during one pass of the loop: the clock at the loop condition,
  the outcome of \<open>squeue\<close>, the outcome of \<open>sbatch\<close> and the clock at
  \<open>datetime.now()\<close> (both used only when the pass gets there), and the number drawn by
  \<open>random.uniform(5, 10)\<close>.
\<close>

record observation =
  ob_time :: rat
  ob_squeue :: proc_result
  ob_sbatch :: proc_result
  ob_now :: rat
  ob_uniform :: rat

record run_config =
  total_nodes :: int
  queue_name :: string
  slurm_templates :: "int \<rightharpoonup> string"
  task_list :: "task list"
  end_time :: rat

record loop_state =
  task_index :: nat
  submitted_jobs :: "job_info list"
  total_jobs :: nat
  events :: "event list"

definition truthy :: "string option \<Rightarrow> bool" where
  \<comment> \<open>\<open>if jobid:\<close>\<close>
  "truthy jobid = (case jobid of None \<Rightarrow> False | Some s \<Rightarrow> s \<noteq> [])"

definition available_nodes :: "int \<Rightarrow> int \<Rightarrow> int" where
  \<comment> \<open>\<open>available_nodes = total_nodes - used_nodes\<close>\<close>
  "available_nodes N_total used_nodes = N_total - used_nodes"

definition loop_body :: "run_config \<Rightarrow> loop_state \<Rightarrow> observation \<Rightarrow> (py_error \<times> loop_state) + loop_state" where
  \<comment> \<open>one pass of the \<open>while\<close> body; \<open>Inl (e, st)\<close> is the exception \<open>e\<close> raised in
      state \<open>st\<close>\<close>
  "loop_body cfg st ob =
     (let task = task_list cfg ! task_index st;
          node_count = t_nodes task;
          duration_min = t_duration task
      in case get_current_used_nodes (ob_squeue ob) of
           Inl e \<Rightarrow> Inl (e, st)
         | Inr used_nodes \<Rightarrow>
             (let st1 = st\<lparr>events := events st @ [UsedNodes used_nodes]\<rparr>
              in if node_count \<le> available_nodes (total_nodes cfg) used_nodes
                 then (let st2 = st1\<lparr>events := events st1 @ [SubmitJob node_count duration_min]\<rparr>
                       in case submit_job node_count duration_min (slurm_templates cfg)
                                 (queue_name cfg) (ob_sbatch ob) of
                            Inl e \<Rightarrow> Inl (e, st2)
                          | Inr (jobid, script_file) \<Rightarrow>
                              if truthy jobid
                              then (let job =
                                          \<lparr>ji_jobid = the jobid, ji_nodes = node_count,
                                           ji_duration = duration_min,
                                           ji_submit_time = \<lfloor>ob_now ob\<rfloor>,
                                           ji_script_file = script_file\<rparr>
                                    in Inr (st2\<lparr>task_index := task_index st2 + 1,
                                                submitted_jobs := submitted_jobs st2 @ [job],
                                                total_jobs := total_jobs st2 + 1,
                                                events := events st2 @
                                                  [SaveJobToDb job, PrintSubmitted job, Sleep 1]\<rparr>))
                              else Inr (st2\<lparr>events := events st2 @
                                                  [PrintSubmitFailed script_file, Sleep 1]\<rparr>))
                 else Inr (st1\<lparr>events := events st1 @ [Sleep (ob_uniform ob)]\<rparr>)))"

datatype loop_result =
    Raised py_error loop_state  \<comment> \<open>an exception left the loop\<close>
  | Running loop_state  \<comment> \<open>the observations are used up and the loop has not left yet\<close>
  | Left loop_state  \<comment> \<open>the loop condition was false\<close>

fun result_state :: "loop_result \<Rightarrow> loop_state" where
  "result_state (Raised e st) = st"
| "result_state (Running st) = st"
| "result_state (Left st) = st"

fun admission_loop :: "run_config \<Rightarrow> loop_state \<Rightarrow> observation list \<Rightarrow> loop_result" where
  \<comment> \<open>\<open>while time.time() < end_time and task_index < num_tasks\<close>\<close>
  "admission_loop cfg st [] = Running st"
| "admission_loop cfg st (ob # obs) =
     (if ob_time ob < end_time cfg \<and> task_index st < length (task_list cfg)
      then (case loop_body cfg st ob of
              Inl (e, st') \<Rightarrow> Raised e st'
            | Inr st' \<Rightarrow> admission_loop cfg st' obs)
      else Left st)"

definition initial_state :: loop_state where
  "initial_state = \<lparr>task_index = 0, submitted_jobs = [], total_jobs = 0, events = []\<rparr>"

definition window_end :: "rat \<Rightarrow> rat \<Rightarrow> rat" where
  \<comment> \<open>\<open>end_time = start_time + total_test_seconds\<close> with
      \<open>total_test_seconds = test_hours * 60 * 60\<close>\<close>
  "window_end start_time test_hours = start_time + test_hours * 60 * 60"

definition capacity_held :: "int \<Rightarrow> event list \<Rightarrow> bool" where
  \<comment> \<open>every call of \<open>submit_job\<close> in the trace comes right after a capacity query whose
      answer left room for the task\<close>
  "capacity_held N_total evs =
     (\<forall>i<length evs. \<forall>n d. evs ! i = SubmitJob n d \<longrightarrow>
        0 < i \<and> (\<exists>u. evs ! (i - 1) = UsedNodes u \<and> n \<le> available_nodes N_total u))"

definition sample_cfg :: run_config where
  \<comment> \<open>8 nodes, two tasks of ten minutes, a window of 100 seconds that starts at 0\<close>
  "sample_cfg =
     \<lparr>total_nodes = 8, queue_name = ''normal'',
      slurm_templates = [10 \<mapsto> ''job_10min.slurm''],
      task_list = [\<lparr>t_nodes = 2, t_duration = 10\<rparr>, \<lparr>t_nodes = 4, t_duration = 10\<rparr>],
      end_time = window_end 0 (1 / 36)\<rparr>"

definition late_ob :: observation where
  \<comment> \<open>the loop condition is read at second 99; \<open>squeue\<close> lists nothing, \<open>sbatch\<close>
      answers with job id 4711, and \<open>datetime.now()\<close> is read at second 101\<close>
  "late_ob =
     \<lparr>ob_time = 99, ob_squeue = \<lparr>returncode = 0, stdout = []\<rparr>,
      ob_sbatch = \<lparr>returncode = 0, stdout = ''4711''\<rparr>, ob_now = 101, ob_uniform = 7\<rparr>"

section \<open>The metrics of main\<close>

record run_metrics =
  m_M :: nat
  m_T :: rat
  m_sum_Nj_Tj :: int
  m_resource_utilization :: rat
  m_system_throughput :: rat

definition compute_metrics :: "rat \<Rightarrow> int \<Rightarrow> job_info list \<Rightarrow> run_metrics" where
  \<comment> \<open>the lines from \<open>M = finished_count\<close> to \<open>system_throughput\<close>;
      \<open>finished_count\<close> is the length of \<open>finished_job_details\<close>\<close>
  "compute_metrics test_hours N_total finished_job_details =
     (let total_test_seconds = test_hours * 60 * 60;
          M = length finished_job_details;
          T = total_test_seconds / 3600;
          T_total = total_test_seconds;
          sum_Nj_Tj = fold (\<lambda>job s. s + ji_nodes job * (ji_duration job * 60)) finished_job_details 0;
          resource_utilization =
            (if 0 < of_int N_total * T_total
             then (of_int sum_Nj_Tj / (of_int N_total * T_total)) * 100 else 0);
          system_throughput = (if 0 < T then of_nat M / T else 0)
      in \<lparr>m_M = M, m_T = T, m_sum_Nj_Tj = sum_Nj_Tj,
          m_resource_utilization = resource_utilization,
          m_system_throughput = system_throughput\<rparr>)"

definition scenario_jobs :: "job_info list" where
  \<comment> \<open>four completed jobs on 1, 2, 1 and 2 nodes, ten minutes each\<close>
  "scenario_jobs =
     map (\<lambda>(jid, n). \<lparr>ji_jobid = jid, ji_nodes = n, ji_duration = 10, ji_submit_time = 0,
                       ji_script_file = Some ''job_10min.slurm''\<rparr>)
       [(''1'', 1), (''2'', 2), (''3'', 1), (''4'', 2)]"

section \<open>Properties\<close>

subsection \<open>The shuffle permutes the list\<close>

lemma length_shuffle_step: "length (shuffle_step rnd i xs) = length xs"
  by (simp add: shuffle_step_def Let_def)

lemma length_fold_shuffle_step: "length (fold (shuffle_step rnd) js xs) = length xs"
  by (induction js arbitrary: xs) (simp_all add: length_shuffle_step)

lemma length_shuffle: "length (shuffle rnd xs) = length xs"
  by (simp add: shuffle_def length_fold_shuffle_step)

lemma mset_shuffle_step: "i < length xs \<Longrightarrow> mset (shuffle_step rnd i xs) = mset xs"
proof -
  assume i: "i < length xs"
  have "rnd i mod (i + 1) < i + 1" by simp
  with i have j: "rnd i mod (i + 1) < length xs" by linarith
  show ?thesis
    unfolding shuffle_step_def Let_def using mset_swap [OF j i] by simp
qed

lemma mset_fold_shuffle_step:
  "\<forall>i\<in>set js. i < length xs \<Longrightarrow> mset (fold (shuffle_step rnd) js xs) = mset xs"
proof (induction js arbitrary: xs)
  case Nil
  then show ?case by simp
next
  case (Cons j js)
  have "mset (fold (shuffle_step rnd) js (shuffle_step rnd j xs)) = mset (shuffle_step rnd j xs)"
    using Cons.prems by (intro Cons.IH) (simp add: length_shuffle_step)
  then show ?case using Cons.prems by (simp add: mset_shuffle_step)
qed

lemma mset_shuffle: "mset (shuffle rnd xs) = mset xs"
  by (simp add: shuffle_def mset_fold_shuffle_step)

lemma set_shuffle: "set (shuffle rnd xs) = set xs"
  using mset_shuffle [of rnd xs] by (metis set_mset_mset)

subsection \<open>Count conservation\<close>

lemma overshoot_data:
  "task_data overshoot_mix =
   Inr [\<lparr>t_nodes = 1, t_duration = 2\<rparr>, \<lparr>t_nodes = 1, t_duration = 2\<rparr>,
        \<lparr>t_nodes = 1, t_duration = 3\<rparr>, \<lparr>t_nodes = 1, t_duration = 3\<rparr>,
        \<lparr>t_nodes = 1, t_duration = 4\<rparr>, \<lparr>t_nodes = 1, t_duration = 4\<rparr>]"
  unfolding overshoot_mix_def by code_simp

text \<open>
  C1. The claim: the returned task list has exactly \<open>\<Sum> entry.count\<close> elements. The
  code comments the adjustment as guaranteeing that the total equals \<open>count\<close>, but a
  pass of the adjustment that meets a variant with count 0 takes nothing away and is not
  made up for. On \<open>overshoot_mix\<close> the shares 0.125, 1.625, 1.625, 1.625 round to
  0, 2, 2, 2; the single pass of the adjustment looks at the first variant only; the
  list has 6 tasks for a configured count of 5, whatever the shuffle draws.
\<close>

theorem generate_task_list_overshoot:
  "map_sum id length (generate_task_list rnd overshoot_mix) = Inr 6 \<and>
   sum_list (map jd_count overshoot_mix) = 5"
proof -
  have "map_sum id length (generate_task_list rnd overshoot_mix) = Inr 6"
    unfolding generate_task_list_def overshoot_data by (simp add: length_shuffle)
  moreover have "sum_list (map jd_count overshoot_mix) = 5"
    by (simp add: overshoot_mix_def)
  ultimately show ?thesis by simp
qed

subsection \<open>Entries without a positive ratio\<close>

lemma round_counts_zero_total:
  "ds \<noteq> [] \<Longrightarrow> round_counts c 0 ds = Inl ZeroDivisionError"
  by (cases ds) simp_all

lemma round_counts_error: "round_counts c r ds = Inl e \<Longrightarrow> e = ZeroDivisionError"
  by (induction ds arbitrary: e) (auto split: if_splits sum.splits)

lemma adjust_step_error:
  "adjust_step diff i acc = Inl e \<Longrightarrow> acc = Inl e \<or> e = ZeroDivisionError"
  by (auto simp: adjust_step_def Let_def split: sum.splits if_splits)

lemma fold_adjust_step_error:
  "fold (adjust_step diff) js acc = Inl e \<Longrightarrow> acc = Inl e \<or> e = ZeroDivisionError"
proof (induction js arbitrary: acc)
  case Nil
  then show ?case by simp
next
  case (Cons j js)
  then have "adjust_step diff j acc = Inl e \<or> e = ZeroDivisionError" by simp
  then show ?case using adjust_step_error by blast
qed

lemma entry_counts_error: "entry_counts job = Inl e \<Longrightarrow> e = ZeroDivisionError"
  unfolding entry_counts_def adjust_counts_def Let_def
  by (auto split: sum.splits dest: round_counts_error fold_adjust_step_error)

lemma entry_tasks_error: "entry_tasks job = Inl e \<Longrightarrow> e = ZeroDivisionError"
  unfolding entry_tasks_def by (auto split: sum.splits dest: entry_counts_error)

lemma task_data_error: "task_data jobs = Inl e \<Longrightarrow> e = ZeroDivisionError"
  by (induction jobs arbitrary: e) (auto split: sum.splits dest: entry_tasks_error)

lemma task_data_entry_raises:
  "job \<in> set jobs \<Longrightarrow> entry_tasks job = Inl e \<Longrightarrow> task_data jobs = Inl ZeroDivisionError"
proof (induction jobs)
  case Nil
  then show ?case by simp
next
  case (Cons j jobs)
  show ?case
  proof (cases "entry_tasks j")
    case (Inl e')
    then show ?thesis using entry_tasks_error [OF Inl] by simp
  next
    case (Inr ts)
    with Cons.prems have "job \<in> set jobs" by auto
    with Cons have "task_data jobs = Inl ZeroDivisionError" by simp
    with Inr show ?thesis by simp
  qed
qed

lemma sum_list_zero_ratios:
  "\<forall>d\<in>set ds. ratio d = 0 \<Longrightarrow> sum_list (map ratio ds) = 0"
  by (induction ds) simp_all

lemma zero_ratio_entry_tasks:
  assumes "jd_durations job \<noteq> []" and "\<forall>d\<in>set (jd_durations job). ratio d = 0"
  shows "entry_tasks job = Inl ZeroDivisionError"
  using assms
  by (simp add: entry_tasks_def entry_counts_def sum_list_zero_ratios round_counts_zero_total)

lemma no_variant_entry_tasks:
  assumes "jd_durations job = []" and "jd_count job = 0"
  shows "entry_tasks job = Inr []"
  using assms by (simp add: entry_tasks_def entry_counts_def adjust_counts_def)

lemma fold_adjust_step_raised: "fold (adjust_step diff) js (Inl e) = Inl e"
  by (induction js) (simp_all add: adjust_step_def)

lemma adjust_counts_no_variant:
  "diff \<noteq> 0 \<Longrightarrow> adjust_counts diff [] = Inl ZeroDivisionError"
proof -
  assume "diff \<noteq> 0"
  then have "0 < nat \<bar>diff\<bar>" by simp
  then have "[0..<nat \<bar>diff\<bar>] = 0 # [Suc 0..<nat \<bar>diff\<bar>]" by (rule upt_conv_Cons)
  then show ?thesis
    by (simp add: adjust_counts_def adjust_step_def fold_adjust_step_raised)
qed

lemma no_variant_entry_raises:
  assumes "jd_durations job = []" and "jd_count job \<noteq> 0"
  shows "entry_tasks job = Inl ZeroDivisionError"
  using assms by (simp add: entry_tasks_def entry_counts_def adjust_counts_no_variant)

text \<open>
  C2 (as the code has it). The claim says that an entry whose ratios are all 0 adds no
  task and raises nothing. The code guards neither the division by \<open>total_ratio\<close>
  nor the modulo by \<open>len(curr_counts)\<close>: an entry whose ratios are all 0 raises
  ZeroDivisionError, and the whole call returns no list, when it has at least one
  duration variant, and also when it has none and a count other than 0. Such an entry
  adds nothing without raising exactly when it has no duration variant and count 0.
\<close>

theorem zero_ratio_entry_raises:
  "(job \<in> set job_defs \<and> jd_durations job \<noteq> [] \<and> (\<forall>d\<in>set (jd_durations job). ratio d = 0)
      \<longrightarrow> generate_task_list rnd job_defs = Inl ZeroDivisionError) \<and>
   (jd_durations job = [] \<and> jd_count job = 0 \<longrightarrow>
      entry_tasks job = Inr [] \<and> generate_task_list rnd [job] = Inr []) \<and>
   (job \<in> set job_defs \<and> jd_durations job = [] \<and> jd_count job \<noteq> 0 \<longrightarrow>
      entry_tasks job = Inl ZeroDivisionError \<and>
      generate_task_list rnd job_defs = Inl ZeroDivisionError) \<and>
   ((\<forall>d\<in>set (jd_durations job). ratio d = 0) \<longrightarrow>
      (entry_tasks job = Inr [] \<longleftrightarrow> jd_durations job = [] \<and> jd_count job = 0) \<and>
      (entry_tasks job \<noteq> Inr [] \<longrightarrow> entry_tasks job = Inl ZeroDivisionError))"
  (is "(?A1 \<longrightarrow> ?B1) \<and> (?A2 \<longrightarrow> ?B2) \<and> (?A3 \<longrightarrow> ?B3) \<and> (?A4 \<longrightarrow> ?B4)")
proof -
  have 1: "?A1 \<longrightarrow> ?B1"
  proof (rule impI)
    assume a: ?A1
    then have "entry_tasks job = Inl ZeroDivisionError"
      by (simp add: zero_ratio_entry_tasks)
    with a have "task_data job_defs = Inl ZeroDivisionError"
      using task_data_entry_raises by blast
    then show ?B1 by (simp add: generate_task_list_def)
  qed
  have 2: "?A2 \<longrightarrow> ?B2"
  proof (rule impI)
    assume ?A2
    then have e: "entry_tasks job = Inr []" by (simp add: no_variant_entry_tasks)
    then have "generate_task_list rnd [job] = Inr []"
      by (simp add: generate_task_list_def shuffle_def)
    with e show ?B2 by (rule conjI)
  qed
  have 3: "?A3 \<longrightarrow> ?B3"
  proof (rule impI)
    assume a: ?A3
    then have e: "entry_tasks job = Inl ZeroDivisionError"
      by (simp add: no_variant_entry_raises)
    with a have "task_data job_defs = Inl ZeroDivisionError"
      using task_data_entry_raises by blast
    then have "generate_task_list rnd job_defs = Inl ZeroDivisionError"
      by (simp add: generate_task_list_def)
    with e show ?B3 by (rule conjI)
  qed
  have 4: "?A4 \<longrightarrow> ?B4"
  proof (rule impI)
    assume z: ?A4
    show ?B4
    proof (cases "jd_durations job = []")
      case True
      show ?thesis
      proof (cases "jd_count job = 0")
        case c: True
        with True show ?thesis by (simp add: no_variant_entry_tasks)
      next
        case c: False
        with True show ?thesis by (simp add: no_variant_entry_raises)
      qed
    next
      case False
      with z show ?thesis by (simp add: zero_ratio_entry_tasks)
    qed
  qed
  from 1 2 3 4 show ?thesis by blast
qed

text \<open>
  C2, the claim as stated fails: one variant of ratio 0, count 0.
\<close>

theorem zero_ratio_entry_counterexample:
  "generate_task_list zero_draws
     [\<lparr>jd_nodes = 2, jd_count = 0, jd_durations = [\<lparr>minutes = 5, ratio = 0\<rparr>]\<rparr>] =
   Inl ZeroDivisionError"
  by (simp add: generate_task_list_def entry_tasks_def entry_counts_def)

theorem zero_ratio_entry_raises_witness:
  "generate_task_list zero_draws
     [\<lparr>jd_nodes = 2, jd_count = 4, jd_durations = [\<lparr>minutes = 5, ratio = 0\<rparr>, \<lparr>minutes = 10, ratio = 0\<rparr>]\<rparr>] =
   Inl ZeroDivisionError \<and>
   entry_tasks \<lparr>jd_nodes = 2, jd_count = 0, jd_durations = []\<rparr> = Inr [] \<and>
   generate_task_list zero_draws [\<lparr>jd_nodes = 2, jd_count = 0, jd_durations = []\<rparr>] = Inr [] \<and>
   entry_tasks \<lparr>jd_nodes = 2, jd_count = 3, jd_durations = []\<rparr> = Inl ZeroDivisionError \<and>
   generate_task_list zero_draws [\<lparr>jd_nodes = 2, jd_count = 3, jd_durations = []\<rparr>] =
     Inl ZeroDivisionError \<and>
   entry_tasks \<lparr>jd_nodes = 2, jd_count = 4, jd_durations = [\<lparr>minutes = 5, ratio = 0\<rparr>, \<lparr>minutes = 10, ratio = 0\<rparr>]\<rparr>
     = Inl ZeroDivisionError"
proof -
  let ?z = "\<lparr>jd_nodes = 2, jd_count = 4, jd_durations = [\<lparr>minutes = 5, ratio = 0\<rparr>, \<lparr>minutes = 10, ratio = 0\<rparr>]\<rparr>"
  let ?e0 = "\<lparr>jd_nodes = 2, jd_count = 0, jd_durations = []\<rparr>"
  let ?e3 = "\<lparr>jd_nodes = 2, jd_count = 3, jd_durations = []\<rparr>"
  have hz: "?z \<in> set [?z] \<and> jd_durations ?z \<noteq> [] \<and> (\<forall>d\<in>set (jd_durations ?z). ratio d = 0)"
    by simp
  have h0: "jd_durations ?e0 = [] \<and> jd_count ?e0 = 0" by simp
  have h3: "?e3 \<in> set [?e3] \<and> jd_durations ?e3 = [] \<and> jd_count ?e3 \<noteq> 0" by simp
  have h4: "\<forall>d\<in>set (jd_durations ?z). ratio d = 0" by simp
  have n4: "\<not> (jd_durations ?z = [] \<and> jd_count ?z = 0)" by simp
  from zero_ratio_entry_raises [of ?z "[?z]" zero_draws] hz
  have 1: "generate_task_list zero_draws [?z] = Inl ZeroDivisionError" by blast
  from zero_ratio_entry_raises [of ?e0 "[?e0]" zero_draws] h0
  have 2: "entry_tasks ?e0 = Inr [] \<and> generate_task_list zero_draws [?e0] = Inr []" by blast
  from zero_ratio_entry_raises [of ?e3 "[?e3]" zero_draws] h3
  have 3: "entry_tasks ?e3 = Inl ZeroDivisionError \<and>
           generate_task_list zero_draws [?e3] = Inl ZeroDivisionError" by blast
  from zero_ratio_entry_raises [of ?z "[?z]" zero_draws] h4 n4
  have 4: "entry_tasks ?z = Inl ZeroDivisionError" by blast
  from 1 2 3 4 show ?thesis by simp
qed

subsection \<open>Templates cover the generated durations\<close>

lemma template_fold_durations:
  "fold (\<lambda>dur templates.
           if templates (minutes dur) = None
           then templates(minutes dur \<mapsto> template_name (minutes dur))
           else templates) ds m k =
   (case m k of
      Some s \<Rightarrow> Some s
    | None \<Rightarrow> if k \<in> minutes ` set ds then Some (template_name k) else None)"
  by (induction ds arbitrary: m) (auto split: option.splits)

lemma template_fold_jobs:
  "fold (\<lambda>job templates.
        fold (\<lambda>dur templates.
           if templates (minutes dur) = None
           then templates(minutes dur \<mapsto> template_name (minutes dur))
           else templates)
          (jd_durations job) templates) jobs m k =
   (case m k of
      Some s \<Rightarrow> Some s
    | None \<Rightarrow> if \<exists>job\<in>set jobs. k \<in> minutes ` set (jd_durations job)
              then Some (template_name k) else None)"
  (is "fold ?outer jobs m k = _")
proof (induction jobs arbitrary: m)
  case Nil
  then show ?case by (simp split: option.splits)
next
  case (Cons j jobs)
  have "fold ?outer (j # jobs) m k = fold ?outer jobs (?outer j m) k" by simp
  also have "\<dots> = (case ?outer j m k of
      Some s \<Rightarrow> Some s
    | None \<Rightarrow> if \<exists>job\<in>set jobs. k \<in> minutes ` set (jd_durations job)
              then Some (template_name k) else None)"
    by (rule Cons.IH)
  also have "?outer j m k = (case m k of
      Some s \<Rightarrow> Some s
    | None \<Rightarrow> if k \<in> minutes ` set (jd_durations j) then Some (template_name k) else None)"
    by (rule template_fold_durations)
  finally show ?case by (auto split: option.splits)
qed

lemma get_duration_template_map_eq:
  "get_duration_template_map job_defs k =
     (if \<exists>job\<in>set job_defs. k \<in> minutes ` set (jd_durations job)
      then Some (template_name k) else None)"
  unfolding get_duration_template_map_def by (simp add: template_fold_jobs)

lemma entry_tasks_member:
  assumes "entry_tasks job = Inr ts" and "t \<in> set ts"
  shows "t_nodes t = jd_nodes job \<and> t_duration t \<in> minutes ` set (jd_durations job)"
proof -
  from assms obtain cc where
    ts: "ts = concat (map (\<lambda>(d, instance_count).
                 replicate (nat instance_count) \<lparr>t_nodes = jd_nodes job, t_duration = minutes d\<rparr>)
               (zip (jd_durations job) cc))"
    by (auto simp: entry_tasks_def split: sum.splits)
  with assms(2) obtain d c where dc: "(d, c) \<in> set (zip (jd_durations job) cc)"
    and t: "t \<in> set (replicate (nat c) \<lparr>t_nodes = jd_nodes job, t_duration = minutes d\<rparr>)"
    by auto
  from dc have "d \<in> set (jd_durations job)" by (rule set_zip_leftD)
  moreover from t have "t = \<lparr>t_nodes = jd_nodes job, t_duration = minutes d\<rparr>" by auto
  ultimately show ?thesis by auto
qed

lemma task_data_member:
  "task_data jobs = Inr ts \<Longrightarrow> t \<in> set ts \<Longrightarrow>
   \<exists>job\<in>set jobs. t_nodes t = jd_nodes job \<and> t_duration t \<in> minutes ` set (jd_durations job)"
proof (induction jobs arbitrary: ts)
  case Nil
  then show ?case by simp
next
  case (Cons j jobs)
  from Cons.prems(1) obtain ts1 ts2 where
    e: "entry_tasks j = Inr ts1" and r: "task_data jobs = Inr ts2" and ts: "ts = ts1 @ ts2"
    by (auto split: sum.splits)
  from Cons.prems(2) ts consider "t \<in> set ts1" | "t \<in> set ts2" by auto
  then show ?case
  proof cases
    case 1
    with e show ?thesis using entry_tasks_member by auto
  next
    case 2
    with r Cons.IH show ?thesis by auto
  qed
qed

lemma generate_task_list_member:
  assumes "generate_task_list rnd job_defs = Inr tasks" and "t \<in> set tasks"
  shows "\<exists>job\<in>set job_defs. t_nodes t = jd_nodes job \<and> t_duration t \<in> minutes ` set (jd_durations job)"
proof -
  from assms(1) obtain data where d: "task_data job_defs = Inr data" and "tasks = shuffle rnd data"
    by (auto simp: generate_task_list_def split: sum.splits)
  with assms(2) have "t \<in> set data" by (simp add: set_shuffle)
  with d show ?thesis by (rule task_data_member)
qed

text \<open>
  C10. Every task of the generated list has its duration among the keys of the template
  map built from the same job mix, so \<open>submit_job\<close> never takes the branch that
  returns \<open>(None, None)\<close> for it.
\<close>

theorem task_duration_has_template:
  assumes "generate_task_list rnd job_defs = Inr tasks" and "t \<in> set tasks"
  shows "get_duration_template_map job_defs (t_duration t) = Some (template_name (t_duration t)) \<and>
         submit_job (t_nodes t) (t_duration t) (get_duration_template_map job_defs) queue result
           \<noteq> Inr (None, None)"
proof -
  from assms have "\<exists>job\<in>set job_defs. t_duration t \<in> minutes ` set (jd_durations job)"
    using generate_task_list_member by blast
  then have m: "get_duration_template_map job_defs (t_duration t) = Some (template_name (t_duration t))"
    by (simp add: get_duration_template_map_eq)
  then show ?thesis
    by (simp add: submit_job_def split: list.splits)
qed

theorem task_duration_has_template_witness:
  "get_duration_template_map overshoot_mix 3 = Some ''job_3min.slurm'' \<and>
   submit_job 1 3 (get_duration_template_map overshoot_mix) ''normal''
       \<lparr>returncode = 0, stdout = ''4711''\<rparr> \<noteq> Inr (None, None)"
proof -
  have g: "generate_task_list zero_draws overshoot_mix =
    Inr [\<lparr>t_nodes = 1, t_duration = 2\<rparr>, \<lparr>t_nodes = 1, t_duration = 3\<rparr>,
      \<lparr>t_nodes = 1, t_duration = 3\<rparr>, \<lparr>t_nodes = 1, t_duration = 4\<rparr>,
      \<lparr>t_nodes = 1, t_duration = 4\<rparr>, \<lparr>t_nodes = 1, t_duration = 2\<rparr>]"
    unfolding overshoot_mix_def by code_simp
  have n: "template_name 3 = ''job_3min.slurm''" by code_simp
  show ?thesis
    using task_duration_has_template [OF g, of "\<lparr>t_nodes = 1, t_duration = 3\<rparr>" "''normal''"
        "\<lparr>returncode = 0, stdout = ''4711''\<rparr>"] n
    by simp
qed

subsection \<open>Used nodes\<close>

lemma fold_running_sum:
  "fold (\<lambda>job used. if aj_state job = ''RUNNING'' then used + aj_nodes job else used) jobs a =
   a + sum_list (map aj_nodes (filter (\<lambda>job. aj_state job = ''RUNNING'') jobs))"
  by (induction jobs arbitrary: a) simp_all

lemma squeue_lines_states:
  "squeue_lines ls = Inr jobs \<Longrightarrow>
   \<forall>job\<in>set jobs. aj_state job = ''RUNNING'' \<or> aj_state job = ''PENDING''"
proof (induction ls arbitrary: jobs)
  case Nil
  then show ?case by simp
next
  case (Cons l ls)
  then show ?case
    by (auto simp: Let_def split: if_splits sum.splits)
qed

lemma check_active_jobs_states:
  "check_active_jobs result = Inr jobs \<Longrightarrow>
   \<forall>job\<in>set jobs. aj_state job = ''RUNNING'' \<or> aj_state job = ''PENDING''"
  unfolding check_active_jobs_def using squeue_lines_states by (auto split: if_splits)

lemma used_nodes_failed_query:
  "returncode result \<noteq> 0 \<Longrightarrow> get_current_used_nodes result = Inr 0"
  by (simp add: get_current_used_nodes_def check_active_jobs_def)

lemma used_nodes_empty_output:
  "get_current_used_nodes \<lparr>returncode = 0, stdout = []\<rparr> = Inr 0"
  by (simp add: get_current_used_nodes_def check_active_jobs_def py_splitlines_def)

text \<open>
  C6. A failed query (non-zero return status) gives 0 used nodes and raises nothing, so
  the pass of the loop goes on exactly as after a successful query that lists no job;
  and the number returned is the sum over the listed jobs in state RUNNING, every other
  listed job being PENDING and adding nothing.
\<close>

theorem used_nodes_running_only:
  "(returncode result \<noteq> 0 \<longrightarrow> get_current_used_nodes result = Inr 0) \<and>
   (returncode (ob_squeue ob) \<noteq> 0 \<longrightarrow>
      loop_body cfg st ob = loop_body cfg st (ob\<lparr>ob_squeue := \<lparr>returncode = 0, stdout = []\<rparr>\<rparr>)) \<and>
   (check_active_jobs result = Inr jobs \<longrightarrow>
      get_current_used_nodes result =
        Inr (sum_list (map aj_nodes (filter (\<lambda>job. aj_state job = ''RUNNING'') jobs))) \<and>
      (\<forall>job\<in>set jobs. aj_state job = ''RUNNING'' \<or> aj_state job = ''PENDING''))"
proof (intro conjI impI)
  assume "returncode result \<noteq> 0"
  then show "get_current_used_nodes result = Inr 0" by (rule used_nodes_failed_query)
next
  assume "returncode (ob_squeue ob) \<noteq> 0"
  then have "get_current_used_nodes (ob_squeue ob) = Inr 0" by (rule used_nodes_failed_query)
  then show "loop_body cfg st ob = loop_body cfg st (ob\<lparr>ob_squeue := \<lparr>returncode = 0, stdout = []\<rparr>\<rparr>)"
    by (simp add: loop_body_def used_nodes_empty_output Let_def cong: sum.case_cong prod.case_cong if_cong)
next
  assume "check_active_jobs result = Inr jobs"
  then show "get_current_used_nodes result =
        Inr (sum_list (map aj_nodes (filter (\<lambda>job. aj_state job = ''RUNNING'') jobs)))"
    by (simp add: get_current_used_nodes_def fold_running_sum)
next
  assume "check_active_jobs result = Inr jobs"
  then show "\<forall>job\<in>set jobs. aj_state job = ''RUNNING'' \<or> aj_state job = ''PENDING''"
    by (rule check_active_jobs_states)
qed

lemma squeue_sample_jobs:
  "check_active_jobs squeue_sample =
     Inr [\<lparr>aj_jobid = ''101'', aj_nodes = 4, aj_state = ''RUNNING''\<rparr>,
          \<lparr>aj_jobid = ''102'', aj_nodes = 8, aj_state = ''PENDING''\<rparr>,
          \<lparr>aj_jobid = ''103'', aj_nodes = 2, aj_state = ''RUNNING''\<rparr>]"
  unfolding squeue_sample_def by code_simp

theorem used_nodes_running_only_witness:
  "get_current_used_nodes \<lparr>returncode = 1, stdout = ''101 4 RUNNING''\<rparr> = Inr 0 \<and>
   loop_body sample_cfg initial_state
       (late_ob\<lparr>ob_squeue := \<lparr>returncode = 1, stdout = ''101 4 RUNNING''\<rparr>\<rparr>) =
     loop_body sample_cfg initial_state late_ob \<and>
   get_current_used_nodes squeue_sample = Inr 6"
proof -
  let ?failed = "\<lparr>returncode = 1, stdout = ''101 4 RUNNING''\<rparr>"
  have r: "returncode ?failed \<noteq> 0"
    and r': "returncode (ob_squeue (late_ob\<lparr>ob_squeue := ?failed\<rparr>)) \<noteq> 0"
    by simp_all
  have o: "late_ob\<lparr>ob_squeue := ?failed\<rparr>\<lparr>ob_squeue := \<lparr>returncode = 0, stdout = []\<rparr>\<rparr> = late_ob"
    by (simp add: late_ob_def)
  from used_nodes_running_only [of ?failed] r
  have 1: "get_current_used_nodes ?failed = Inr 0" by blast
  from used_nodes_running_only
         [of _ "late_ob\<lparr>ob_squeue := ?failed\<rparr>" sample_cfg initial_state] r'
  have 2: "loop_body sample_cfg initial_state (late_ob\<lparr>ob_squeue := ?failed\<rparr>) =
           loop_body sample_cfg initial_state
             (late_ob\<lparr>ob_squeue := ?failed\<rparr>\<lparr>ob_squeue := \<lparr>returncode = 0, stdout = []\<rparr>\<rparr>)"
    by blast
  from used_nodes_running_only [of squeue_sample] squeue_sample_jobs
  have 3: "get_current_used_nodes squeue_sample =
        Inr (sum_list (map aj_nodes (filter (\<lambda>job. aj_state job = ''RUNNING'')
          [\<lparr>aj_jobid = ''101'', aj_nodes = 4, aj_state = ''RUNNING''\<rparr>,
           \<lparr>aj_jobid = ''102'', aj_nodes = 8, aj_state = ''PENDING''\<rparr>,
           \<lparr>aj_jobid = ''103'', aj_nodes = 2, aj_state = ''RUNNING''\<rparr>])))"
    by blast
  from 1 2 3 show ?thesis unfolding o by simp
qed

subsection \<open>Completion states\<close>

lemma sacct_line_dom: "dom m \<subseteq> set jobids \<Longrightarrow> dom (sacct_line jobids line m) \<subseteq> set jobids"
  by (auto simp: sacct_line_def Let_def split: if_splits)

lemma fold_sacct_line_dom:
  "dom m \<subseteq> set jobids \<Longrightarrow> dom (fold (sacct_line jobids) ls m) \<subseteq> set jobids"
  by (induction ls arbitrary: m) (simp_all add: sacct_line_dom)

lemma sacct_line_other:
  "length (py_split (py_strip line)) < 2 \<or> py_split (py_strip line) ! 0 \<noteq> jid \<Longrightarrow>
   sacct_line jobids line m jid = m jid"
  by (auto simp: sacct_line_def Let_def)

lemma fold_sacct_line_absent:
  "\<forall>line\<in>set ls. length (py_split (py_strip line)) < 2 \<or> py_split (py_strip line) ! 0 \<noteq> jid \<Longrightarrow>
   fold (sacct_line jobids) ls m jid = m jid"
  by (induction ls arbitrary: m) (simp_all add: sacct_line_other)

lemma fold_default_false:
  "fold (\<lambda>jid d. if d jid = None then d(jid \<mapsto> False) else d) js d k =
   (case d k of Some b \<Rightarrow> Some b | None \<Rightarrow> if k \<in> set js then Some False else None)"
  by (induction js arbitrary: d) (auto split: option.splits)

lemma check_jobs_finished_eq:
  "check_jobs_finished jobids result k =
     (case (if returncode result = 0
            then fold (sacct_line jobids) (py_splitlines (stdout result)) Map.empty
            else Map.empty) k of
        Some b \<Rightarrow> Some b
      | None \<Rightarrow> if k \<in> set jobids then Some False else None)"
proof (cases "jobids = []")
  case True
  have "dom (fold (sacct_line []) (py_splitlines (stdout result)) Map.empty) \<subseteq> set []"
    by (rule fold_sacct_line_dom) simp
  then have "fold (sacct_line []) (py_splitlines (stdout result)) Map.empty k = None"
    by (simp add: dom_def)
  with True show ?thesis by (simp add: check_jobs_finished_def)
next
  case False
  then show ?thesis by (simp add: check_jobs_finished_def Let_def fold_default_false)
qed

lemma check_jobs_finished_dom: "dom (check_jobs_finished jobids result) = set jobids"
proof -
  let ?d = "if returncode result = 0
            then fold (sacct_line jobids) (py_splitlines (stdout result)) Map.empty
            else Map.empty"
  have sub: "dom ?d \<subseteq> set jobids"
    using fold_sacct_line_dom [of Map.empty jobids] by simp
  show ?thesis
  proof (rule set_eqI)
    fix k
    show "k \<in> dom (check_jobs_finished jobids result) \<longleftrightarrow> k \<in> set jobids"
    proof (cases "?d k")
      case None
      then show ?thesis by (auto simp add: check_jobs_finished_eq domIff)
    next
      case (Some b)
      then have "k \<in> dom ?d" by (simp add: domIff)
      with sub have "k \<in> set jobids" by blast
      with Some show ?thesis by (auto simp add: check_jobs_finished_eq domIff)
    qed
  qed
qed

text \<open>
  C8. The dictionary returned by \<open>check_jobs_finished\<close> has exactly the queried
  job ids as keys, and a queried id that no line of the accounting output names (or any
  queried id, when the query failed) is mapped to False.
\<close>

theorem check_jobs_finished_total:
  "dom (check_jobs_finished jobids result) = set jobids \<and>
   (jid \<in> set jobids \<and>
    (returncode result \<noteq> 0 \<or>
     (\<forall>line\<in>set (py_splitlines (stdout result)).
        length (py_split (py_strip line)) < 2 \<or> py_split (py_strip line) ! 0 \<noteq> jid))
    \<longrightarrow> check_jobs_finished jobids result jid = Some False)"
proof (intro conjI impI)
  show "dom (check_jobs_finished jobids result) = set jobids"
    by (rule check_jobs_finished_dom)
next
  assume a: "jid \<in> set jobids \<and>
    (returncode result \<noteq> 0 \<or>
     (\<forall>line\<in>set (py_splitlines (stdout result)).
        length (py_split (py_strip line)) < 2 \<or> py_split (py_strip line) ! 0 \<noteq> jid))"
  then have "(if returncode result = 0
            then fold (sacct_line jobids) (py_splitlines (stdout result)) Map.empty
            else Map.empty) jid = None"
    by (auto simp: fold_sacct_line_absent)
  with a show "check_jobs_finished jobids result jid = Some False"
    by (simp add: check_jobs_finished_eq)
qed


lemma sacct_sample_lines:
  "py_splitlines (stdout sacct_sample) = [''11 COMPLETED'', ''11.batch COMPLETED'', ''12 FAILED'']"
  unfolding sacct_sample_def by code_simp

lemma sacct_sample_parts:
  "map (\<lambda>line. py_split (py_strip line)) [''11 COMPLETED'', ''11.batch COMPLETED'', ''12 FAILED''] =
   [[''11'', ''COMPLETED''], [''11.batch'', ''COMPLETED''], [''12'', ''FAILED'']]"
  by code_simp

theorem check_jobs_finished_total_witness:
  "dom (check_jobs_finished [''11'', ''12'', ''13''] sacct_sample) = {''11'', ''12'', ''13''} \<and>
   check_jobs_finished [''11'', ''12'', ''13''] sacct_sample ''13'' = Some False \<and>
   check_jobs_finished [''11''] \<lparr>returncode = 1, stdout = ''11 COMPLETED''\<rparr> ''11'' = Some False"
  using check_jobs_finished_total [of "[''11'', ''12'', ''13'']" sacct_sample "''13''"]
    check_jobs_finished_total [of "[''11'']" "\<lparr>returncode = 1, stdout = ''11 COMPLETED''\<rparr>" "''11''"]
    sacct_sample_lines sacct_sample_parts
  by simp

subsection \<open>Metrics\<close>

lemma fold_node_seconds:
  "fold (\<lambda>job s. s + ji_nodes job * (ji_duration job * 60)) jobs a =
   a + (\<Sum>job\<leftarrow>jobs. ji_nodes job * ji_duration job * 60)"
  by (induction jobs arbitrary: a) (simp_all add: algebra_simps)

lemma metrics_throughput:
  "m_system_throughput (compute_metrics test_hours N_total jobs) =
     (if 0 < test_hours then of_nat (length jobs) / test_hours else 0)"
  by (simp add: compute_metrics_def Let_def)

lemma metrics_utilization:
  "m_resource_utilization (compute_metrics test_hours N_total jobs) =
     (if 0 < of_int N_total * (test_hours * 3600)
      then 100 * of_int (\<Sum>job\<leftarrow>jobs. ji_nodes job * ji_duration job * 60) /
             (of_int N_total * (test_hours * 3600))
      else 0)"
proof -
  have T: "test_hours * 60 * 60 = test_hours * 3600" by simp
  have S: "fold (\<lambda>job s. s + ji_nodes job * (ji_duration job * 60)) jobs 0 =
      (\<Sum>job\<leftarrow>jobs. ji_nodes job * ji_duration job * 60)"
    by (simp add: fold_node_seconds)
  show ?thesis
    unfolding compute_metrics_def Let_def T S by simp
qed

text \<open>
  C3. Throughput is the number of completed jobs divided by the configured window in
  hours, and 0 when the window is not positive; utilization is 100 times the node-seconds
  of the completed jobs divided by \<open>total_nodes\<close> times the window in seconds, and 0
  when that product is not positive. Four completed jobs on 1, 2, 1, 2 nodes of ten
  minutes each, 8 nodes and a window of one hour: 3600 node-seconds, utilization 12.5,
  throughput 4.
\<close>

theorem metrics_formulas:
  "m_system_throughput (compute_metrics test_hours N_total jobs) =
     (if 0 < test_hours then of_nat (length jobs) / test_hours else 0) \<and>
   m_resource_utilization (compute_metrics test_hours N_total jobs) =
     (if 0 < of_int N_total * (test_hours * 3600)
      then 100 * of_int (\<Sum>job\<leftarrow>jobs. ji_nodes job * ji_duration job * 60) /
             (of_int N_total * (test_hours * 3600))
      else 0) \<and>
   (map ji_nodes jobs = [1, 2, 1, 2] \<and> map ji_duration jobs = [10, 10, 10, 10] \<longrightarrow>
      m_sum_Nj_Tj (compute_metrics 1 8 jobs) = 3600 \<and>
      m_resource_utilization (compute_metrics 1 8 jobs) = 25 / 2 \<and>
      m_system_throughput (compute_metrics 1 8 jobs) = 4)"
proof (intro conjI impI)
  show "m_system_throughput (compute_metrics test_hours N_total jobs) =
     (if 0 < test_hours then of_nat (length jobs) / test_hours else 0)"
    by (rule metrics_throughput)
  show "m_resource_utilization (compute_metrics test_hours N_total jobs) =
     (if 0 < of_int N_total * (test_hours * 3600)
      then 100 * of_int (\<Sum>job\<leftarrow>jobs. ji_nodes job * ji_duration job * 60) /
             (of_int N_total * (test_hours * 3600))
      else 0)"
    by (rule metrics_utilization)
next
  assume a: "map ji_nodes jobs = [1, 2, 1, 2] \<and> map ji_duration jobs = [10, 10, 10, 10]"
  then obtain j1 j2 j3 j4 where jobs: "jobs = [j1, j2, j3, j4]"
    by (auto simp: map_eq_Cons_conv)
  with a have f: "ji_nodes j1 = 1" "ji_nodes j2 = 2" "ji_nodes j3 = 1" "ji_nodes j4 = 2"
    "ji_duration j1 = 10" "ji_duration j2 = 10" "ji_duration j3 = 10" "ji_duration j4 = 10"
    by simp_all
  show "m_sum_Nj_Tj (compute_metrics 1 8 jobs) = 3600"
    by (simp add: compute_metrics_def Let_def jobs f)
  show "m_resource_utilization (compute_metrics 1 8 jobs) = 25 / 2"
    by (simp add: compute_metrics_def Let_def jobs f)
  show "m_system_throughput (compute_metrics 1 8 jobs) = 4"
    by (simp add: compute_metrics_def Let_def jobs f)
qed

theorem metrics_formulas_witness:
  "m_sum_Nj_Tj (compute_metrics 1 8 scenario_jobs) = 3600 \<and>
   m_resource_utilization (compute_metrics 1 8 scenario_jobs) = 25 / 2 \<and>
   m_system_throughput (compute_metrics 1 8 scenario_jobs) = 4 \<and>
   m_system_throughput (compute_metrics 0 8 scenario_jobs) = 0"
  using metrics_formulas [of 1 8 scenario_jobs] metrics_formulas [of 0 8 scenario_jobs]
  by (simp add: scenario_jobs_def)

subsection \<open>One pass of the loop\<close>

lemma loop_body_query_raises:
  "get_current_used_nodes (ob_squeue ob) = Inl e \<Longrightarrow> loop_body cfg st ob = Inl (e, st)"
  by (simp add: loop_body_def Let_def)

lemma loop_body_backoff:
  assumes "get_current_used_nodes (ob_squeue ob) = Inr used"
    and "\<not> t_nodes (task_list cfg ! task_index st) \<le> available_nodes (total_nodes cfg) used"
  shows "loop_body cfg st ob =
           Inr (st\<lparr>events := events st @ [UsedNodes used, Sleep (ob_uniform ob)]\<rparr>)"
  using assms by (simp add: loop_body_def Let_def)

lemma loop_body_submit_raises:
  assumes "get_current_used_nodes (ob_squeue ob) = Inr used"
    and "t_nodes (task_list cfg ! task_index st) \<le> available_nodes (total_nodes cfg) used"
    and "submit_job (t_nodes (task_list cfg ! task_index st))
           (t_duration (task_list cfg ! task_index st))
           (slurm_templates cfg) (queue_name cfg) (ob_sbatch ob) = Inl e"
  shows "loop_body cfg st ob =
           Inl (e, st\<lparr>events := events st @
                  [UsedNodes used,
                   SubmitJob (t_nodes (task_list cfg ! task_index st))
                     (t_duration (task_list cfg ! task_index st))]\<rparr>)"
  using assms by (simp add: loop_body_def Let_def)

lemma loop_body_submit_failed:
  assumes "get_current_used_nodes (ob_squeue ob) = Inr used"
    and "t_nodes (task_list cfg ! task_index st) \<le> available_nodes (total_nodes cfg) used"
    and "submit_job (t_nodes (task_list cfg ! task_index st))
           (t_duration (task_list cfg ! task_index st))
           (slurm_templates cfg) (queue_name cfg) (ob_sbatch ob) = Inr (jobid, script_file)"
    and "\<not> truthy jobid"
  shows "loop_body cfg st ob =
           Inr (st\<lparr>events := events st @
                  [UsedNodes used,
                   SubmitJob (t_nodes (task_list cfg ! task_index st))
                     (t_duration (task_list cfg ! task_index st)),
                   PrintSubmitFailed script_file, Sleep 1]\<rparr>)"
  using assms by (simp add: loop_body_def Let_def)

lemma loop_body_submitted:
  assumes "get_current_used_nodes (ob_squeue ob) = Inr used"
    and "t_nodes (task_list cfg ! task_index st) \<le> available_nodes (total_nodes cfg) used"
    and "submit_job (t_nodes (task_list cfg ! task_index st))
           (t_duration (task_list cfg ! task_index st))
           (slurm_templates cfg) (queue_name cfg) (ob_sbatch ob) = Inr (jobid, script_file)"
    and "truthy jobid"
    and "job = \<lparr>ji_jobid = the jobid, ji_nodes = t_nodes (task_list cfg ! task_index st),
                ji_duration = t_duration (task_list cfg ! task_index st),
                ji_submit_time = \<lfloor>ob_now ob\<rfloor>, ji_script_file = script_file\<rparr>"
  shows "loop_body cfg st ob =
           Inr (st\<lparr>task_index := task_index st + 1,
                   submitted_jobs := submitted_jobs st @ [job],
                   total_jobs := total_jobs st + 1,
                   events := events st @
                  [UsedNodes used,
                   SubmitJob (t_nodes (task_list cfg ! task_index st))
                     (t_duration (task_list cfg ! task_index st)),
                   SaveJobToDb job, PrintSubmitted job, Sleep 1]\<rparr>)"
  using assms by (simp add: loop_body_def Let_def)


lemma loop_body_cases:
  obtains
    (QueryRaises) e where "loop_body cfg st ob = Inl (e, st)"
  | (Backoff) used where
      "get_current_used_nodes (ob_squeue ob) = Inr used"
      "\<not> t_nodes (task_list cfg ! task_index st) \<le> available_nodes (total_nodes cfg) used"
      "loop_body cfg st ob =
         Inr (st\<lparr>events := events st @ [UsedNodes used, Sleep (ob_uniform ob)]\<rparr>)"
  | (SubmitRaises) used e where
      "get_current_used_nodes (ob_squeue ob) = Inr used"
      "t_nodes (task_list cfg ! task_index st) \<le> available_nodes (total_nodes cfg) used"
      "loop_body cfg st ob =
         Inl (e, st\<lparr>events := events st @
                [UsedNodes used,
                 SubmitJob (t_nodes (task_list cfg ! task_index st))
                   (t_duration (task_list cfg ! task_index st))]\<rparr>)"
  | (Failed) used script_file where
      "get_current_used_nodes (ob_squeue ob) = Inr used"
      "t_nodes (task_list cfg ! task_index st) \<le> available_nodes (total_nodes cfg) used"
      "loop_body cfg st ob =
         Inr (st\<lparr>events := events st @
                [UsedNodes used,
                 SubmitJob (t_nodes (task_list cfg ! task_index st))
                   (t_duration (task_list cfg ! task_index st)),
                 PrintSubmitFailed script_file, Sleep 1]\<rparr>)"
  | (Submitted) used job where
      "get_current_used_nodes (ob_squeue ob) = Inr used"
      "t_nodes (task_list cfg ! task_index st) \<le> available_nodes (total_nodes cfg) used"
      "ji_submit_time job = \<lfloor>ob_now ob\<rfloor>"
      "loop_body cfg st ob =
         Inr (st\<lparr>task_index := task_index st + 1,
                 submitted_jobs := submitted_jobs st @ [job],
                 total_jobs := total_jobs st + 1,
                 events := events st @
                [UsedNodes used,
                 SubmitJob (t_nodes (task_list cfg ! task_index st))
                   (t_duration (task_list cfg ! task_index st)),
                 SaveJobToDb job, PrintSubmitted job, Sleep 1]\<rparr>)"
proof (cases "get_current_used_nodes (ob_squeue ob)")
  case (Inl e)
  then show ?thesis using QueryRaises loop_body_query_raises by blast
next
  case (Inr used)
  show ?thesis
  proof (cases "t_nodes (task_list cfg ! task_index st) \<le> available_nodes (total_nodes cfg) used")
    case False
    with Inr show ?thesis using Backoff loop_body_backoff by blast
  next
    case True
    show ?thesis
    proof (cases "submit_job (t_nodes (task_list cfg ! task_index st))
           (t_duration (task_list cfg ! task_index st))
           (slurm_templates cfg) (queue_name cfg) (ob_sbatch ob)")
      case (Inl e)
      from loop_body_submit_raises [OF Inr True Inl] show ?thesis using SubmitRaises Inr True by blast
    next
      case r: (Inr p)
      obtain jobid script_file where p: "p = (jobid, script_file)" by (cases p)
      show ?thesis
      proof (cases "truthy jobid")
        case False
        from loop_body_submit_failed [OF Inr True r [unfolded p] False]
        show ?thesis using Failed Inr True by blast
      next
        case t: True
        define job where
          "job = \<lparr>ji_jobid = the jobid, ji_nodes = t_nodes (task_list cfg ! task_index st),
                ji_duration = t_duration (task_list cfg ! task_index st),
                ji_submit_time = \<lfloor>ob_now ob\<rfloor>, ji_script_file = script_file\<rparr>"
        have js: "ji_submit_time job = \<lfloor>ob_now ob\<rfloor>" by (simp add: job_def)
        from loop_body_submitted [OF Inr True r [unfolded p] t job_def]
        show ?thesis by (rule Submitted [OF Inr True js])
      qed
    qed
  qed
qed

lemma capacity_held_append:
  assumes "capacity_held N xs" and "capacity_held N ys"
  shows "capacity_held N (xs @ ys)"
  unfolding capacity_held_def
proof (intro allI impI)
  fix i n d
  assume i: "i < length (xs @ ys)" and s: "(xs @ ys) ! i = SubmitJob n d"
  show "0 < i \<and> (\<exists>u. (xs @ ys) ! (i - 1) = UsedNodes u \<and> n \<le> available_nodes N u)"
  proof (cases "i < length xs")
    case True
    with s have "xs ! i = SubmitJob n d" by (simp add: nth_append)
    with assms(1) True have "0 < i \<and> (\<exists>u. xs ! (i - 1) = UsedNodes u \<and> n \<le> available_nodes N u)"
      unfolding capacity_held_def by blast
    moreover from True have "i - 1 < length xs" by linarith
    then have "(xs @ ys) ! (i - 1) = xs ! (i - 1)" by (simp only: nth_append if_True)
    ultimately show ?thesis by simp
  next
    case False
    let ?j = "i - length xs"
    from False i have j: "?j < length ys" by simp
    from False s have "ys ! ?j = SubmitJob n d" by (simp add: nth_append)
    with assms(2) j have h: "0 < ?j \<and> (\<exists>u. ys ! (?j - 1) = UsedNodes u \<and> n \<le> available_nodes N u)"
      unfolding capacity_held_def by blast
    then have "\<not> i - 1 < length xs" by linarith
    then have "(xs @ ys) ! (i - 1) = ys ! (i - 1 - length xs)" by (simp add: nth_append)
    moreover have "i - 1 - length xs = ?j - 1" by simp
    ultimately show ?thesis using h by auto
  qed
qed

lemma capacity_held_backoff: "capacity_held N [UsedNodes u, Sleep x]"
  by (auto simp: capacity_held_def nth_Cons split: nat.splits)

lemma capacity_held_raised:
  "n \<le> available_nodes N u \<Longrightarrow> capacity_held N [UsedNodes u, SubmitJob n d]"
  by (auto simp: capacity_held_def nth_Cons split: nat.splits)

lemma capacity_held_failed:
  "n \<le> available_nodes N u \<Longrightarrow>
   capacity_held N [UsedNodes u, SubmitJob n d, PrintSubmitFailed s, Sleep x]"
  by (auto simp: capacity_held_def nth_Cons split: nat.splits)

lemma capacity_held_submitted:
  "n \<le> available_nodes N u \<Longrightarrow>
   capacity_held N [UsedNodes u, SubmitJob n d, SaveJobToDb j, PrintSubmitted j', Sleep x]"
  by (auto simp: capacity_held_def nth_Cons split: nat.splits)

subsection \<open>Invariants of the loop\<close>

lemma capacity_held_Nil: "capacity_held N []"
  by (simp add: capacity_held_def)

lemma loop_body_invariants:
  assumes "loop_body cfg st ob = Inr st' \<or> loop_body cfg st ob = Inl (e, st')"
  shows "(\<exists>c. events st' = events st @ c \<and> capacity_held (total_nodes cfg) c) \<and>
         (\<exists>new. submitted_jobs st' = submitted_jobs st @ new \<and>
            (\<forall>job\<in>set new. ji_submit_time job = \<lfloor>ob_now ob\<rfloor>))"
proof (cases rule: loop_body_cases [of cfg st ob])
  case (QueryRaises e')
  with assms have "st' = st" by auto
  then show ?thesis using capacity_held_Nil by auto
next
  case (Backoff used)
  with assms have "st' = st\<lparr>events := events st @ [UsedNodes used, Sleep (ob_uniform ob)]\<rparr>"
    by auto
  then show ?thesis using capacity_held_backoff by auto
next
  case (SubmitRaises used e')
  with assms have "st' = st\<lparr>events := events st @
                [UsedNodes used,
                 SubmitJob (t_nodes (task_list cfg ! task_index st))
                   (t_duration (task_list cfg ! task_index st))]\<rparr>"
    by auto
  then show ?thesis using capacity_held_raised [OF SubmitRaises(2)] by auto
next
  case (Failed used script_file)
  with assms have "st' = st\<lparr>events := events st @
                [UsedNodes used,
                 SubmitJob (t_nodes (task_list cfg ! task_index st))
                   (t_duration (task_list cfg ! task_index st)),
                 PrintSubmitFailed script_file, Sleep 1]\<rparr>"
    by auto
  then show ?thesis using capacity_held_failed [OF Failed(2)] by auto
next
  case (Submitted used job)
  with assms have "st' = st\<lparr>task_index := task_index st + 1,
                 submitted_jobs := submitted_jobs st @ [job],
                 total_jobs := total_jobs st + 1,
                 events := events st @
                [UsedNodes used,
                 SubmitJob (t_nodes (task_list cfg ! task_index st))
                   (t_duration (task_list cfg ! task_index st)),
                 SaveJobToDb job, PrintSubmitted job, Sleep 1]\<rparr>"
    by auto
  then show ?thesis using capacity_held_submitted [OF Submitted(2)] Submitted(3) by auto
qed

lemma admission_loop_invariants:
  "\<exists>c new.
     events (result_state (admission_loop cfg st obs)) = events st @ c \<and>
     capacity_held (total_nodes cfg) c \<and>
     submitted_jobs (result_state (admission_loop cfg st obs)) = submitted_jobs st @ new \<and>
     (\<forall>job\<in>set new. \<exists>ob\<in>set obs. ob_time ob < end_time cfg \<and> ji_submit_time job = \<lfloor>ob_now ob\<rfloor>)"
proof (induction obs arbitrary: st)
  case Nil
  show ?case using capacity_held_Nil by simp
next
  case (Cons ob obs)
  show ?case
  proof (cases "ob_time ob < end_time cfg \<and> task_index st < length (task_list cfg)")
    case False
    then show ?thesis using capacity_held_Nil by auto
  next
    case True
    show ?thesis
    proof (cases "loop_body cfg st ob")
      case (Inl p)
      obtain e st' where p: "p = (e, st')" by (cases p)
      from Inl p have "loop_body cfg st ob = Inr st' \<or> loop_body cfg st ob = Inl (e, st')" by simp
      from loop_body_invariants [OF this] obtain c new where
        "events st' = events st @ c" "capacity_held (total_nodes cfg) c"
        "submitted_jobs st' = submitted_jobs st @ new"
        "\<forall>job\<in>set new. ji_submit_time job = \<lfloor>ob_now ob\<rfloor>"
        by blast
      moreover from True Inl p have "result_state (admission_loop cfg st (ob # obs)) = st'"
        by simp
      ultimately show ?thesis using True by auto
    next
      case (Inr st')
      from loop_body_invariants [OF disjI1 [OF Inr]] obtain c new where
        b: "events st' = events st @ c" "capacity_held (total_nodes cfg) c"
        "submitted_jobs st' = submitted_jobs st @ new"
        "\<forall>job\<in>set new. ji_submit_time job = \<lfloor>ob_now ob\<rfloor>"
        by blast
      from Cons.IH [of st'] obtain c' new' where
        r: "events (result_state (admission_loop cfg st' obs)) = events st' @ c'"
        "capacity_held (total_nodes cfg) c'"
        "submitted_jobs (result_state (admission_loop cfg st' obs)) = submitted_jobs st' @ new'"
        "\<forall>job\<in>set new'. \<exists>ob\<in>set obs. ob_time ob < end_time cfg \<and> ji_submit_time job = \<lfloor>ob_now ob\<rfloor>"
        by blast
      from True Inr have l: "admission_loop cfg st (ob # obs) = admission_loop cfg st' obs" by simp
      have 1: "events (result_state (admission_loop cfg st (ob # obs))) = events st @ (c @ c')"
        using l b(1) r(1) by simp
      have 2: "capacity_held (total_nodes cfg) (c @ c')"
        using b(2) r(2) by (rule capacity_held_append)
      have 3: "submitted_jobs (result_state (admission_loop cfg st (ob # obs))) =
                 submitted_jobs st @ (new @ new')"
        using l b(3) r(3) by simp
      have 4: "\<forall>job\<in>set (new @ new'). \<exists>ob'\<in>set (ob # obs).
                 ob_time ob' < end_time cfg \<and> ji_submit_time job = \<lfloor>ob_now ob'\<rfloor>"
        using b(4) r(4) True by auto
      from 1 2 3 4 show ?thesis by blast
    qed
  qed
qed

lemma admission_loop_initial:
  "capacity_held (total_nodes cfg) (events (result_state (admission_loop cfg initial_state obs))) \<and>
   (\<forall>job\<in>set (submitted_jobs (result_state (admission_loop cfg initial_state obs))).
      \<exists>ob\<in>set obs. ob_time ob < end_time cfg \<and> ji_submit_time job = \<lfloor>ob_now ob\<rfloor>)"
  using admission_loop_invariants [of cfg initial_state obs]
  by (auto simp: initial_state_def)

subsection \<open>The deadline\<close>

lemma sample_submit:
  "submit_job 2 10 [10 \<mapsto> ''job_10min.slurm''] ''normal'' \<lparr>returncode = 0, stdout = ''4711''\<rparr>
     = Inr (Some ''4711'', Some ''job_10min.slurm'')"
  by (simp add: submit_job_def py_split_def py_strip_def py_isspace_def)

lemma late_run:
  "result_state (admission_loop sample_cfg initial_state [late_ob]) =
     \<lparr>task_index = 1,
      submitted_jobs = [\<lparr>ji_jobid = ''4711'', ji_nodes = 2, ji_duration = 10,
                         ji_submit_time = 101, ji_script_file = Some ''job_10min.slurm''\<rparr>],
      total_jobs = 1,
      events = [UsedNodes 0, SubmitJob 2 10,
                SaveJobToDb \<lparr>ji_jobid = ''4711'', ji_nodes = 2, ji_duration = 10,
                         ji_submit_time = 101, ji_script_file = Some ''job_10min.slurm''\<rparr>,
                PrintSubmitted \<lparr>ji_jobid = ''4711'', ji_nodes = 2, ji_duration = 10,
                         ji_submit_time = 101, ji_script_file = Some ''job_10min.slurm''\<rparr>,
                Sleep 1]\<rparr>"
  by (simp add: sample_cfg_def late_ob_def initial_state_def window_end_def loop_body_def
      used_nodes_empty_output sample_submit available_nodes_def truthy_def Let_def)

text \<open>
  C4 (as the code has it). The claim says that every record has a submit timestamp
  earlier than the window end. The loop compares the clock with \<open>end_time\<close> only in
  its condition; the timestamp is read later in the pass, after the capacity query and
  the submission have run, and is not compared with anything. What holds: every record
  comes from a pass whose loop condition read the clock before the window end, and its
  timestamp is the whole second of the later reading of that pass; it is earlier than
  the window end when the two readings of each pass are the same instant.
\<close>

theorem submit_time_read_after_deadline_check:
  "(job \<in> set (submitted_jobs (result_state (admission_loop cfg initial_state obs))) \<longrightarrow>
      (\<exists>ob\<in>set obs. ob_time ob < end_time cfg \<and> ji_submit_time job = \<lfloor>ob_now ob\<rfloor>)) \<and>
   (job \<in> set (submitted_jobs (result_state (admission_loop cfg initial_state obs))) \<and>
    (\<forall>ob\<in>set obs. ob_now ob = ob_time ob) \<longrightarrow> of_int (ji_submit_time job) < end_time cfg)"
proof (intro conjI impI)
  assume "job \<in> set (submitted_jobs (result_state (admission_loop cfg initial_state obs)))"
  then show "\<exists>ob\<in>set obs. ob_time ob < end_time cfg \<and> ji_submit_time job = \<lfloor>ob_now ob\<rfloor>"
    using admission_loop_initial [of cfg obs] by blast
next
  assume a: "job \<in> set (submitted_jobs (result_state (admission_loop cfg initial_state obs))) \<and>
    (\<forall>ob\<in>set obs. ob_now ob = ob_time ob)"
  then obtain ob where ob: "ob \<in> set obs" "ob_time ob < end_time cfg"
      "ji_submit_time job = \<lfloor>ob_now ob\<rfloor>"
    using admission_loop_initial [of cfg obs] by blast
  with a have "ji_submit_time job = \<lfloor>ob_time ob\<rfloor>" by simp
  then have "of_int (ji_submit_time job) \<le> ob_time ob" by simp
  with ob(2) show "of_int (ji_submit_time job) < end_time cfg" by linarith
qed

text \<open>
  C4, the claim as stated fails: the condition is read at second 99 of a window that ends
  at second 100, the two commands take two seconds, and the record is stamped 101.
\<close>

theorem submit_time_counterexample:
  "map ji_submit_time (submitted_jobs (result_state (admission_loop sample_cfg initial_state [late_ob])))
     = [101] \<and>
   ob_time late_ob = 99 \<and> end_time sample_cfg = 100"
  unfolding late_run by (simp add: late_ob_def sample_cfg_def window_end_def)

theorem submit_time_read_after_deadline_check_witness:
  "(\<exists>ob\<in>set [late_ob]. ob_time ob < end_time sample_cfg \<and> (101::int) = \<lfloor>ob_now ob\<rfloor>) \<and>
   rat_of_int 99 < end_time sample_cfg"
proof -
  have j: "\<lparr>ji_jobid = ''4711'', ji_nodes = 2, ji_duration = 10,
            ji_submit_time = 101, ji_script_file = Some ''job_10min.slurm''\<rparr>
         \<in> set (submitted_jobs (result_state (admission_loop sample_cfg initial_state [late_ob])))"
    unfolding late_run by simp
  have k: "result_state (admission_loop sample_cfg initial_state [late_ob\<lparr>ob_now := 99\<rparr>]) =
     \<lparr>task_index = 1,
      submitted_jobs = [\<lparr>ji_jobid = ''4711'', ji_nodes = 2, ji_duration = 10,
                         ji_submit_time = 99, ji_script_file = Some ''job_10min.slurm''\<rparr>],
      total_jobs = 1,
      events = [UsedNodes 0, SubmitJob 2 10,
                SaveJobToDb \<lparr>ji_jobid = ''4711'', ji_nodes = 2, ji_duration = 10,
                         ji_submit_time = 99, ji_script_file = Some ''job_10min.slurm''\<rparr>,
                PrintSubmitted \<lparr>ji_jobid = ''4711'', ji_nodes = 2, ji_duration = 10,
                         ji_submit_time = 99, ji_script_file = Some ''job_10min.slurm''\<rparr>,
                Sleep 1]\<rparr>"
    by (simp add: sample_cfg_def late_ob_def initial_state_def window_end_def loop_body_def
      used_nodes_empty_output sample_submit available_nodes_def truthy_def Let_def)
  have t: "ob_now (late_ob\<lparr>ob_now := 99\<rparr>) = ob_time (late_ob\<lparr>ob_now := 99\<rparr>)"
    by (simp add: late_ob_def)
  have kk: "\<lparr>ji_jobid = ''4711'', ji_nodes = 2, ji_duration = 10,
            ji_submit_time = 99, ji_script_file = Some ''job_10min.slurm''\<rparr>
         \<in> set (submitted_jobs (result_state
                 (admission_loop sample_cfg initial_state [late_ob\<lparr>ob_now := 99\<rparr>])))"
    unfolding k by simp
  have tt: "\<forall>ob\<in>set [late_ob\<lparr>ob_now := 99\<rparr>]. ob_now ob = ob_time ob"
    using t by simp
  from submit_time_read_after_deadline_check
        [of "\<lparr>ji_jobid = ''4711'', ji_nodes = 2, ji_duration = 10,
            ji_submit_time = 101, ji_script_file = Some ''job_10min.slurm''\<rparr>" sample_cfg "[late_ob]"] j
  have 1: "\<exists>ob\<in>set [late_ob]. ob_time ob < end_time sample_cfg \<and>
             ji_submit_time \<lparr>ji_jobid = ''4711'', ji_nodes = 2, ji_duration = 10,
            ji_submit_time = 101, ji_script_file = Some ''job_10min.slurm''\<rparr> = \<lfloor>ob_now ob\<rfloor>"
    by blast
  from submit_time_read_after_deadline_check
        [of "\<lparr>ji_jobid = ''4711'', ji_nodes = 2, ji_duration = 10,
            ji_submit_time = 99, ji_script_file = Some ''job_10min.slurm''\<rparr>" sample_cfg
            "[late_ob\<lparr>ob_now := 99\<rparr>]"] kk tt
  have 2: "of_int (ji_submit_time \<lparr>ji_jobid = ''4711'', ji_nodes = 2, ji_duration = 10,
            ji_submit_time = 99, ji_script_file = Some ''job_10min.slurm''\<rparr>) < end_time sample_cfg"
    by blast
  from 1 2 show ?thesis by simp
qed

subsection \<open>Capacity\<close>

lemma squeue_sample_used: "get_current_used_nodes squeue_sample = Inr 6"
proof -
  have "check_active_jobs squeue_sample =
     Inr [\<lparr>aj_jobid = ''101'', aj_nodes = 4, aj_state = ''RUNNING''\<rparr>,
          \<lparr>aj_jobid = ''102'', aj_nodes = 8, aj_state = ''PENDING''\<rparr>,
          \<lparr>aj_jobid = ''103'', aj_nodes = 2, aj_state = ''RUNNING''\<rparr>]"
    unfolding squeue_sample_def by code_simp
  then show ?thesis by (simp add: get_current_used_nodes_def)
qed

lemma drift_used:
  "get_current_used_nodes \<lparr>returncode = 0, stdout = ''7 70 RUNNING''\<rparr> = Inr 70"
  by code_simp

lemma sample_submit_rejected:
  "submit_job 2 10 [10 \<mapsto> ''job_10min.slurm''] ''normal'' \<lparr>returncode = 1, stdout = []\<rparr>
     = Inr (None, Some ''job_10min.slurm'')"
  by (simp add: submit_job_def)

text \<open>
  C5. In the trace of the loop, every call of \<open>submit_job\<close> comes right after the
  answer \<open>u\<close> of the capacity query of the same pass, and the node count passed is at
  most \<open>total_nodes - u\<close>; a pass whose task needs more than that calls no
  \<open>submit_job\<close> and only backs off.
\<close>

theorem submit_only_within_capacity:
  "(i < length (events (result_state (admission_loop cfg initial_state obs))) \<and>
    events (result_state (admission_loop cfg initial_state obs)) ! i = SubmitJob n d \<longrightarrow>
      0 < i \<and>
      (\<exists>u. events (result_state (admission_loop cfg initial_state obs)) ! (i - 1) = UsedNodes u \<and>
           n \<le> total_nodes cfg - u)) \<and>
   (get_current_used_nodes (ob_squeue ob) = Inr used \<and>
    total_nodes cfg - used < t_nodes (task_list cfg ! task_index st) \<longrightarrow>
      loop_body cfg st ob =
        Inr (st\<lparr>events := events st @ [UsedNodes used, Sleep (ob_uniform ob)]\<rparr>))"
  (is "(?A \<longrightarrow> ?B) \<and> (?C \<longrightarrow> ?D)")
proof (rule conjI)
  show "?A \<longrightarrow> ?B"
  proof (rule impI)
    assume a: ?A
    have "capacity_held (total_nodes cfg)
            (events (result_state (admission_loop cfg initial_state obs)))"
      using admission_loop_initial [of cfg obs] by blast
    with a show ?B
      unfolding capacity_held_def available_nodes_def by blast
  qed
next
  show "?C \<longrightarrow> ?D"
  proof (rule impI)
    assume ?C
    then show ?D
      by (intro loop_body_backoff) (simp_all add: available_nodes_def)
  qed
qed

theorem submit_only_within_capacity_witness:
  "events (result_state (admission_loop sample_cfg initial_state [late_ob])) ! 1 = SubmitJob 2 10 \<and>
   (\<exists>u. events (result_state (admission_loop sample_cfg initial_state [late_ob])) ! (1 - 1) = UsedNodes u \<and>
        2 \<le> total_nodes sample_cfg - u) \<and>
   loop_body sample_cfg (initial_state\<lparr>task_index := 1\<rparr>) (late_ob\<lparr>ob_squeue := squeue_sample\<rparr>) =
     Inr (initial_state\<lparr>task_index := 1, events := [UsedNodes 6, Sleep 7]\<rparr>)"
proof -
  have e: "events (result_state (admission_loop sample_cfg initial_state [late_ob])) ! 1 = SubmitJob 2 10"
    and l: "1 < length (events (result_state (admission_loop sample_cfg initial_state [late_ob])))"
    unfolding late_run by simp_all
  have u: "get_current_used_nodes (ob_squeue (late_ob\<lparr>ob_squeue := squeue_sample\<rparr>)) = Inr 6"
    by (simp add: squeue_sample_used)
  have t: "total_nodes sample_cfg - 6
             < t_nodes (task_list sample_cfg ! task_index (initial_state\<lparr>task_index := 1\<rparr>))"
    by (simp add: sample_cfg_def)
  from submit_only_within_capacity [of 1 sample_cfg "[late_ob]" 2 10] e l
  have 1: "\<exists>u. events (result_state (admission_loop sample_cfg initial_state [late_ob])) ! (1 - 1) = UsedNodes u \<and>
        2 \<le> total_nodes sample_cfg - u"
    by blast
  from submit_only_within_capacity
         [of _ sample_cfg _ _ _ "late_ob\<lparr>ob_squeue := squeue_sample\<rparr>" 6 "initial_state\<lparr>task_index := 1\<rparr>"] u t
  have 2: "loop_body sample_cfg (initial_state\<lparr>task_index := 1\<rparr>) (late_ob\<lparr>ob_squeue := squeue_sample\<rparr>) =
     Inr (initial_state\<lparr>task_index := 1, events :=
        events (initial_state\<lparr>task_index := 1\<rparr>) @
        [UsedNodes 6, Sleep (ob_uniform (late_ob\<lparr>ob_squeue := squeue_sample\<rparr>))]\<rparr>)"
    by blast
  have 3: "events (initial_state\<lparr>task_index := 1\<rparr>) @
        [UsedNodes 6, Sleep (ob_uniform (late_ob\<lparr>ob_squeue := squeue_sample\<rparr>))] = [UsedNodes 6, Sleep 7]"
    by (simp add: initial_state_def late_ob_def)
  from e 1 2 show ?thesis unfolding 3 by simp
qed

subsection \<open>Failed submissions and drift\<close>

text \<open>
  C7. When \<open>submit_job\<close> returns no job id, the pass leaves \<open>task_index\<close>,
  \<open>submitted_jobs\<close> and \<open>total_jobs\<close> as they were, prints the diagnostic and
  sleeps 1 second, and the loop goes on from that state, so the next pass takes the same
  task; a successful pass ends with the same sleep of 1 second.
\<close>

theorem failed_submission_keeps_task:
  assumes "get_current_used_nodes (ob_squeue ob) = Inr used"
    and "t_nodes (task_list cfg ! task_index st) \<le> total_nodes cfg - used"
  shows
    "(submit_job (t_nodes (task_list cfg ! task_index st)) (t_duration (task_list cfg ! task_index st))
        (slurm_templates cfg) (queue_name cfg) (ob_sbatch ob) = Inr (None, script_file) \<longrightarrow>
      loop_body cfg st ob =
        Inr (st\<lparr>events := events st @
               [UsedNodes used,
                SubmitJob (t_nodes (task_list cfg ! task_index st))
                  (t_duration (task_list cfg ! task_index st)),
                PrintSubmitFailed script_file, Sleep 1]\<rparr>) \<and>
      (ob_time ob < end_time cfg \<and> task_index st < length (task_list cfg) \<longrightarrow>
         admission_loop cfg st (ob # obs) =
           admission_loop cfg
             (st\<lparr>events := events st @
               [UsedNodes used,
                SubmitJob (t_nodes (task_list cfg ! task_index st))
                  (t_duration (task_list cfg ! task_index st)),
                PrintSubmitFailed script_file, Sleep 1]\<rparr>) obs)) \<and>
     (submit_job (t_nodes (task_list cfg ! task_index st)) (t_duration (task_list cfg ! task_index st))
        (slurm_templates cfg) (queue_name cfg) (ob_sbatch ob) = Inr (Some jobid, script_file) \<and>
      jobid \<noteq> [] \<longrightarrow>
      (\<exists>job. loop_body cfg st ob =
         Inr (st\<lparr>task_index := task_index st + 1,
                 submitted_jobs := submitted_jobs st @ [job],
                 total_jobs := total_jobs st + 1,
                 events := events st @
                   [UsedNodes used,
                    SubmitJob (t_nodes (task_list cfg ! task_index st))
                      (t_duration (task_list cfg ! task_index st)),
                    SaveJobToDb job, PrintSubmitted job, Sleep 1]\<rparr>)))"
  (is "(?F \<longrightarrow> ?B \<and> (?L \<longrightarrow> ?R)) \<and> (?S \<longrightarrow> ?J)")
proof (rule conjI)
  from assms(2) have fits:
    "t_nodes (task_list cfg ! task_index st) \<le> available_nodes (total_nodes cfg) used"
    by (simp add: available_nodes_def)
  show "?F \<longrightarrow> ?B \<and> (?L \<longrightarrow> ?R)"
  proof (rule impI)
    assume f: ?F
    have nt: "\<not> truthy None" by (simp add: truthy_def)
    have b: ?B by (rule loop_body_submit_failed [OF assms(1) fits f nt])
    have "?L \<longrightarrow> ?R"
    proof (rule impI)
      assume ?L
      then show ?R by (simp add: b)
    qed
    with b show "?B \<and> (?L \<longrightarrow> ?R)" by (rule conjI)
  qed
  show "?S \<longrightarrow> ?J"
  proof (rule impI)
    assume s: ?S
    then have t: "truthy (Some jobid)" by (simp add: truthy_def)
    from s have sj: "submit_job (t_nodes (task_list cfg ! task_index st))
        (t_duration (task_list cfg ! task_index st))
        (slurm_templates cfg) (queue_name cfg) (ob_sbatch ob) = Inr (Some jobid, script_file)"
      by (rule conjunct1)
    from loop_body_submitted [OF assms(1) fits sj t refl] show ?J by (rule exI)
  qed
qed

theorem failed_submission_keeps_task_witness:
  "loop_body sample_cfg initial_state (late_ob\<lparr>ob_sbatch := \<lparr>returncode = 1, stdout = []\<rparr>\<rparr>) =
     Inr (initial_state\<lparr>events :=
            [UsedNodes 0, SubmitJob 2 10, PrintSubmitFailed (Some ''job_10min.slurm''), Sleep 1]\<rparr>) \<and>
   admission_loop sample_cfg initial_state [late_ob\<lparr>ob_sbatch := \<lparr>returncode = 1, stdout = []\<rparr>\<rparr>] =
     Running (initial_state\<lparr>events :=
            [UsedNodes 0, SubmitJob 2 10, PrintSubmitFailed (Some ''job_10min.slurm''), Sleep 1]\<rparr>) \<and>
   (\<exists>job. loop_body sample_cfg initial_state late_ob =
      Inr (initial_state\<lparr>task_index := 1, submitted_jobs := [job], total_jobs := 1,
             events := [UsedNodes 0, SubmitJob 2 10, SaveJobToDb job, PrintSubmitted job, Sleep 1]\<rparr>))"
proof -
  let ?ob = "late_ob\<lparr>ob_sbatch := \<lparr>returncode = 1, stdout = []\<rparr>\<rparr>"
  have u: "get_current_used_nodes (ob_squeue ?ob) = Inr 0"
    and u': "get_current_used_nodes (ob_squeue late_ob) = Inr 0"
    by (simp_all add: late_ob_def used_nodes_empty_output)
  have c: "t_nodes (task_list sample_cfg ! task_index initial_state) \<le> total_nodes sample_cfg - 0"
    by (simp add: sample_cfg_def initial_state_def)
  have f: "submit_job (t_nodes (task_list sample_cfg ! task_index initial_state))
        (t_duration (task_list sample_cfg ! task_index initial_state))
        (slurm_templates sample_cfg) (queue_name sample_cfg) (ob_sbatch ?ob) =
        Inr (None, Some ''job_10min.slurm'')"
    by (simp add: sample_cfg_def initial_state_def late_ob_def sample_submit_rejected)
  have s: "submit_job (t_nodes (task_list sample_cfg ! task_index initial_state))
        (t_duration (task_list sample_cfg ! task_index initial_state))
        (slurm_templates sample_cfg) (queue_name sample_cfg) (ob_sbatch late_ob) =
        Inr (Some ''4711'', Some ''job_10min.slurm'') \<and> ''4711'' \<noteq> []"
    by (simp add: sample_cfg_def initial_state_def late_ob_def sample_submit)
  have l: "ob_time ?ob < end_time sample_cfg \<and> task_index initial_state < length (task_list sample_cfg)"
    by (simp add: sample_cfg_def initial_state_def late_ob_def window_end_def)
  have v: "t_nodes (task_list sample_cfg ! task_index initial_state) = 2"
    "t_duration (task_list sample_cfg ! task_index initial_state) = 10"
    "events initial_state = []" "submitted_jobs initial_state = []"
    "task_index initial_state = 0" "total_jobs initial_state = 0"
    "t_nodes (task_list sample_cfg ! 0) = 2" "t_duration (task_list sample_cfg ! 0) = 10"
    by (simp_all add: sample_cfg_def initial_state_def)
  note T = failed_submission_keeps_task
    [OF u c, where script_file = "Some ''job_10min.slurm''" and obs = "[]"]
  note T' = failed_submission_keeps_task
    [OF u' c, where jobid = "''4711''" and script_file = "Some ''job_10min.slurm''"]
  from T f l have 1: "loop_body sample_cfg initial_state ?ob =
        Inr (initial_state\<lparr>events := events initial_state @
               [UsedNodes 0,
                SubmitJob (t_nodes (task_list sample_cfg ! task_index initial_state))
                  (t_duration (task_list sample_cfg ! task_index initial_state)),
                PrintSubmitFailed (Some ''job_10min.slurm''), Sleep 1]\<rparr>)"
    and 2: "admission_loop sample_cfg initial_state [?ob] =
           admission_loop sample_cfg
             (initial_state\<lparr>events := events initial_state @
               [UsedNodes 0,
                SubmitJob (t_nodes (task_list sample_cfg ! task_index initial_state))
                  (t_duration (task_list sample_cfg ! task_index initial_state)),
                PrintSubmitFailed (Some ''job_10min.slurm''), Sleep 1]\<rparr>) []"
    by blast+
  from T' s have 3: "\<exists>job. loop_body sample_cfg initial_state late_ob =
         Inr (initial_state\<lparr>task_index := task_index initial_state + 1,
                 submitted_jobs := submitted_jobs initial_state @ [job],
                 total_jobs := total_jobs initial_state + 1,
                 events := events initial_state @
                   [UsedNodes 0,
                    SubmitJob (t_nodes (task_list sample_cfg ! task_index initial_state))
                      (t_duration (task_list sample_cfg ! task_index initial_state)),
                    SaveJobToDb job, PrintSubmitted job, Sleep 1]\<rparr>)"
    by blast
  from 1 2 3 show ?thesis by (simp add: v)
qed

text \<open>
  C9 (as the code has it). The claim says that the available count is clamped at 0. The
  code computes \<open>total_nodes - used_nodes\<close> and nothing else: the value is negative
  when more nodes are in use than \<open>total_nodes\<close>. For a task of at least one node
  the comparison gives the same answer as with the clamped value, and the pass backs
  off without submitting.
\<close>

theorem available_nodes_not_clamped:
  "available_nodes N_total used = N_total - used \<and>
   (N_total < used \<longrightarrow> available_nodes N_total used < 0) \<and>
   (0 < node_count \<longrightarrow>
      (node_count \<le> available_nodes N_total used) =
      (node_count \<le> max 0 (available_nodes N_total used))) \<and>
   (get_current_used_nodes (ob_squeue ob) = Inr used' \<and> total_nodes cfg < used' \<and>
    0 < t_nodes (task_list cfg ! task_index st) \<longrightarrow>
      loop_body cfg st ob =
        Inr (st\<lparr>events := events st @ [UsedNodes used', Sleep (ob_uniform ob)]\<rparr>))"
proof -
  have 1: "available_nodes N_total used = N_total - used"
    by (simp add: available_nodes_def)
  have 2: "N_total < used \<longrightarrow> available_nodes N_total used < 0"
    by (simp add: available_nodes_def)
  have 3: "0 < node_count \<longrightarrow>
      (node_count \<le> available_nodes N_total used) =
      (node_count \<le> max 0 (available_nodes N_total used))"
    by (auto simp: available_nodes_def)
  have 4: "get_current_used_nodes (ob_squeue ob) = Inr used' \<and> total_nodes cfg < used' \<and>
    0 < t_nodes (task_list cfg ! task_index st) \<longrightarrow>
      loop_body cfg st ob =
        Inr (st\<lparr>events := events st @ [UsedNodes used', Sleep (ob_uniform ob)]\<rparr>)"
  proof (rule impI)
    assume a: "get_current_used_nodes (ob_squeue ob) = Inr used' \<and> total_nodes cfg < used' \<and>
      0 < t_nodes (task_list cfg ! task_index st)"
    then have "\<not> t_nodes (task_list cfg ! task_index st) \<le> available_nodes (total_nodes cfg) used'"
      by (simp add: available_nodes_def)
    with a show "loop_body cfg st ob =
        Inr (st\<lparr>events := events st @ [UsedNodes used', Sleep (ob_uniform ob)]\<rparr>)"
      using loop_body_backoff by blast
  qed
  from 1 2 3 4 show ?thesis by blast
qed

text \<open>
  C9, the claim as stated fails: 70 nodes in use out of 64 give an available count of -6.
\<close>

theorem available_nodes_counterexample:
  "get_current_used_nodes \<lparr>returncode = 0, stdout = ''7 70 RUNNING''\<rparr> = Inr 70 \<and>
   available_nodes 64 70 = - 6"
  by (simp add: drift_used available_nodes_def)

theorem available_nodes_not_clamped_witness:
  "available_nodes 64 70 = - 6 \<and> available_nodes 64 70 < 0 \<and>
   ((1::int) \<le> available_nodes 64 70) = (1 \<le> max 0 (available_nodes 64 70)) \<and>
   loop_body sample_cfg initial_state
       (late_ob\<lparr>ob_squeue := \<lparr>returncode = 0, stdout = ''7 70 RUNNING''\<rparr>\<rparr>) =
     Inr (initial_state\<lparr>events := [UsedNodes 70, Sleep 7]\<rparr>)"
proof -
  let ?ob = "late_ob\<lparr>ob_squeue := \<lparr>returncode = 0, stdout = ''7 70 RUNNING''\<rparr>\<rparr>"
  have u: "get_current_used_nodes (ob_squeue ?ob) = Inr 70 \<and> total_nodes sample_cfg < 70 \<and>
    0 < t_nodes (task_list sample_cfg ! task_index initial_state)"
    by (simp add: drift_used sample_cfg_def initial_state_def)
  have v: "events initial_state @ [UsedNodes 70, Sleep (ob_uniform ?ob)] = [UsedNodes 70, Sleep 7]"
    by (simp add: initial_state_def late_ob_def)
  note T = available_nodes_not_clamped [of 64 70 1 ?ob 70 sample_cfg initial_state]
  from T u have 4: "loop_body sample_cfg initial_state ?ob =
        Inr (initial_state\<lparr>events := events initial_state @ [UsedNodes 70, Sleep (ob_uniform ?ob)]\<rparr>)"
    by blast
  from T have 1: "available_nodes 64 70 = 64 - 70"
    and 2: "available_nodes 64 70 < 0"
    and 3: "((1::int) \<le> available_nodes 64 70) = (1 \<le> max 0 (available_nodes 64 70))"
    by simp_all
  from 1 2 3 4 show ?thesis unfolding v by simp
qed

end
